theory Spec2Isabelle
  imports Main
begin

section \<open>Python values and the string operations the program uses\<close>

text \<open>
  The program is the Python script \<^verbatim>\<open>download_plots.py\<close>. The text that reaches the parser comes
  from the user: the command line, the prompt, a file. It is modelled as a \<open>py_str\<close>, the list
  of the Unicode code points of a Python \<^verbatim>\<open>str\<close>. The tables of white space, of line boundaries
  and of decimal digits below are those of CPython 3.11 (Unicode 14.0), for all code points.
  \<open>codes\<close> gives the code points of a text written with the characters of this file.
\<close>

type_synonym py_str = "nat list"

definition codes :: "string \<Rightarrow> py_str" where
  "codes s = map of_char s"

datatype py_error = ValueError | IndexError

text \<open>
  \<^verbatim>\<open>str.isspace\<close> on one character, which is also the white space of \<^verbatim>\<open>str.strip\<close> and of
  \<^verbatim>\<open>str.split\<close>: TAB, LF, VT, FF, CR, FS, GS, RS, US, space, NEL, NBSP, the Ogham space mark, the
  spaces U+2000 to U+200A, the line and the paragraph separator, the narrow no-break space, the
  medium mathematical space and the ideographic space.
\<close>

definition whitespace :: "nat list" where
  "whitespace = [0x09, 0x0A, 0x0B, 0x0C, 0x0D, 0x1C, 0x1D, 0x1E, 0x1F, 0x20, 0x85, 0xA0, 0x1680,
                 0x2000, 0x2001, 0x2002, 0x2003, 0x2004, 0x2005, 0x2006, 0x2007, 0x2008, 0x2009,
                 0x200A, 0x2028, 0x2029, 0x202F, 0x205F, 0x3000]"

definition is_space :: "nat \<Rightarrow> bool" where
  "is_space c = (c \<in> set whitespace)"

text \<open>
  The line boundaries of \<^verbatim>\<open>str.splitlines\<close>: LF, VT, FF, CR, FS, GS, RS, NEL, the line and the
  paragraph separator.
\<close>

definition linebreaks :: "nat list" where
  "linebreaks = [0x0A, 0x0B, 0x0C, 0x0D, 0x1C, 0x1D, 0x1E, 0x85, 0x2028, 0x2029]"

definition is_linebreak :: "nat \<Rightarrow> bool" where
  "is_linebreak c = (c \<in> set linebreaks)"

text \<open>
  \<^verbatim>\<open>s.splitlines()\<close>: the text is cut after every line boundary, CR LF counting as one
  boundary; the boundaries are dropped; what follows the last boundary is a line only when it
  is not empty. The first argument holds the characters of the current line, last one first.
\<close>

fun splitlines_from :: "py_str \<Rightarrow> py_str \<Rightarrow> py_str list" where
  "splitlines_from cur [] = (if cur = [] then [] else [rev cur])"
| "splitlines_from cur [c] = (if is_linebreak c then [rev cur] else [rev (c # cur)])"
| "splitlines_from cur (c # d # cs) =
     (if c = 0x0D \<and> d = 0x0A then rev cur # splitlines_from [] cs
      else if is_linebreak c then rev cur # splitlines_from [] (d # cs)
      else splitlines_from (c # cur) (d # cs))"

definition splitlines :: "py_str \<Rightarrow> py_str list" where
  "splitlines s = splitlines_from [] s"

text \<open>\<^verbatim>\<open>s.strip()\<close>: white space removed at both ends.\<close>

definition strip :: "py_str \<Rightarrow> py_str" where
  "strip s = rev (dropWhile is_space (rev (dropWhile is_space s)))"

text \<open>\<^verbatim>\<open>s.startswith(c)\<close> and \<^verbatim>\<open>c in s\<close> for a one-character \<^verbatim>\<open>c\<close>.\<close>

definition startswith :: "py_str \<Rightarrow> nat \<Rightarrow> bool" where
  "startswith s c = (case s of [] \<Rightarrow> False | d # _ \<Rightarrow> d = c)"

definition contains :: "py_str \<Rightarrow> nat \<Rightarrow> bool" where
  "contains s c = (c \<in> set s)"

text \<open>\<^verbatim>\<open>s.split(sep)\<close> for a one-character separator: every occurrence cuts, empty pieces kept.\<close>

fun split_from :: "nat \<Rightarrow> py_str \<Rightarrow> py_str \<Rightarrow> py_str list" where
  "split_from sep cur [] = [rev cur]"
| "split_from sep cur (c # cs) =
     (if c = sep then rev cur # split_from sep [] cs else split_from sep (c # cur) cs)"

definition split_on :: "py_str \<Rightarrow> nat \<Rightarrow> py_str list" where
  "split_on s sep = split_from sep [] s"

text \<open>\<^verbatim>\<open>s.split()\<close>: the maximal runs of characters that are not white space.\<close>

fun split_ws_from :: "py_str \<Rightarrow> py_str \<Rightarrow> py_str list" where
  "split_ws_from cur [] = (if cur = [] then [] else [rev cur])"
| "split_ws_from cur (c # cs) =
     (if is_space c then (if cur = [] then split_ws_from [] cs else rev cur # split_ws_from [] cs)
      else split_ws_from (c # cur) cs)"

definition split_ws :: "py_str \<Rightarrow> py_str list" where
  "split_ws s = split_ws_from [] s"

text \<open>\<^verbatim>\<open>xs[0]\<close> raises \<^verbatim>\<open>IndexError\<close> on an empty list.\<close>

definition index0 :: "'a list \<Rightarrow> py_error + 'a" where
  "index0 xs = (case xs of [] \<Rightarrow> Inl IndexError | x # _ \<Rightarrow> Inr x)"

subsection \<open>\<^verbatim>\<open>int(s)\<close> on a string\<close>

text \<open>
  The decimal digits that \<^verbatim>\<open>int\<close> accepts are the characters of the Unicode category Nd. They
  come in runs of ten, the digits zero to nine of one script in order; \<open>digit_zeros\<close> lists the
  digit zero of every run, from the ASCII digits (U+0030) and the Arabic-Indic digits (U+0660)
  to the segmented digits (U+1FBF0).
\<close>

definition digit_zeros :: "nat list" where
  "digit_zeros =
     [0x30, 0x660, 0x6F0, 0x7C0, 0x966, 0x9E6, 0xA66, 0xAE6, 0xB66, 0xBE6, 0xC66, 0xCE6, 0xD66,
      0xDE6, 0xE50, 0xED0, 0xF20, 0x1040, 0x1090, 0x17E0, 0x1810, 0x1946, 0x19D0, 0x1A80, 0x1A90,
      0x1B50, 0x1BB0, 0x1C40, 0x1C50, 0xA620, 0xA8D0, 0xA900, 0xA9D0, 0xA9F0, 0xAA50, 0xABF0,
      0xFF10, 0x104A0, 0x10D30, 0x11066, 0x110F0, 0x11136, 0x111D0, 0x112F0, 0x11450, 0x114D0,
      0x11650, 0x116C0, 0x11730, 0x118E0, 0x11950, 0x11C50, 0x11D50, 0x11DA0, 0x16A60, 0x16AC0,
      0x16B50, 0x1D7CE, 0x1D7D8, 0x1D7E2, 0x1D7EC, 0x1D7F6, 0x1E140, 0x1E2F0, 0x1E950, 0x1FBF0]"

definition digit_val :: "nat \<Rightarrow> nat option" where
  "digit_val c =
     (case find (\<lambda>z. z \<le> c \<and> c < z + 10) digit_zeros of
        None \<Rightarrow> None
      | Some z \<Rightarrow> Some (c - z))"

text \<open>
  The digits of a literal, read left to right: \<open>acc\<close> is the value so far, \<open>n\<close> the number of
  digits read, \<open>us\<close> says that the previous character was an underscore. Python accepts one
  underscore between two digits and nowhere else.
\<close>

fun int_digits :: "nat \<Rightarrow> nat \<Rightarrow> bool \<Rightarrow> py_str \<Rightarrow> (nat \<times> nat) option" where
  "int_digits acc n us [] = (if us then None else Some (acc, n))"
| "int_digits acc n us (c # cs) =
     (if c = 0x5F then (if us then None else int_digits acc n True cs)
      else (case digit_val c of
              None \<Rightarrow> None
            | Some d \<Rightarrow> int_digits (10 * acc + d) (Suc n) False cs))"

text \<open>
  \<^verbatim>\<open>int(s)\<close> for a string without white space (the program only passes such strings): an
  optional sign \<^verbatim>\<open>-\<close> (0x2D) or \<^verbatim>\<open>+\<close> (0x2B), then a digit, then digits and single
  underscores, ending in a digit; anything else raises \<^verbatim>\<open>ValueError\<close>. So does a literal of
  more than \<open>lim\<close> digits when \<open>lim\<close> is positive: \<open>lim\<close> is the interpreter's
  \<^verbatim>\<open>sys.get_int_max_str_digits()\<close>, 4300 unless changed, 0 for no limit.
\<close>

definition py_int :: "nat \<Rightarrow> py_str \<Rightarrow> py_error + int" where
  "py_int lim s =
     (let (neg, body) = (case s of
                           [] \<Rightarrow> (False, s)
                         | c # cs \<Rightarrow> if c = 0x2D then (True, cs)
                                     else if c = 0x2B then (False, cs)
                                     else (False, s))
      in if body = [] \<or> startswith body 0x5F then Inl ValueError
         else (case int_digits 0 0 False body of
                 None \<Rightarrow> Inl ValueError
               | Some (v, n) \<Rightarrow>
                   if 0 < lim \<and> lim < n then Inl ValueError
                   else Inr (if neg then - int v else int v)))"

section \<open>The input parser \<^verbatim>\<open>parse_input\<close>\<close>

text \<open>
  The inner loop over \<^verbatim>\<open>comma_parts\<close>, with the list \<^verbatim>\<open>fills\<close> built so far. An exception
  other than the \<^verbatim>\<open>ValueError\<close> caught around \<^verbatim>\<open>fills.append(int(tokens[0]))\<close> leaves the loop.
\<close>

fun parse_parts :: "nat \<Rightarrow> py_str list \<Rightarrow> int list \<Rightarrow> py_error + int list" where
  "parse_parts lim [] fills = Inr fills"
| "parse_parts lim (part # parts) fills =
     (let part = strip part in
      if part = [] then parse_parts lim parts fills
      else
        let tokens = split_ws part in
        if tokens \<noteq> [] then
          (case (case index0 tokens of Inl e \<Rightarrow> Inl e | Inr tok \<Rightarrow> py_int lim tok) of
             Inr n \<Rightarrow> parse_parts lim parts (fills @ [n])
           | Inl e \<Rightarrow> if e = ValueError then parse_parts lim parts fills else Inl e)
        else parse_parts lim parts fills)"

text \<open>The outer loop over \<^verbatim>\<open>lines\<close>.\<close>

fun parse_lines :: "nat \<Rightarrow> py_str list \<Rightarrow> int list \<Rightarrow> py_error + int list" where
  "parse_lines lim [] fills = Inr fills"
| "parse_lines lim (line # lines) fills =
     (let line = strip line in
      if line = [] then parse_lines lim lines fills
      else if startswith line 0x23 then parse_lines lim lines fills
      else
        (case (if contains line 0x23 then index0 (split_on line 0x23)
               else Inr line) of
           Inl e \<Rightarrow> Inl e
         | Inr line \<Rightarrow>
             (case parse_parts lim (split_on line 0x2C) fills of
                Inl e \<Rightarrow> Inl e
              | Inr fills \<Rightarrow> parse_lines lim lines fills)))"

definition parse_input :: "nat \<Rightarrow> py_str \<Rightarrow> py_error + int list" where
  "parse_input lim input_str = parse_lines lim (splitlines input_str) []"

subsection \<open>The reference rules of the specification\<close>

text \<open>
  The rules 1 to 8 of the specification's section 4.1, written as they read: what one segment
  contributes, what one line contributes, and the whole result as the contributions of the lines
  one after the other.
\<close>

definition spec_segment :: "nat \<Rightarrow> py_str \<Rightarrow> int list" where
  "spec_segment lim seg =
     (case split_ws seg of
        [] \<Rightarrow> []
      | tok # _ \<Rightarrow> (case py_int lim tok of Inl _ \<Rightarrow> [] | Inr n \<Rightarrow> [n]))"

definition spec_line :: "nat \<Rightarrow> py_str \<Rightarrow> int list" where
  "spec_line lim raw =
     (let line = strip raw in
      if line = [] then []
      else if hd line = 0x23 then []
      else
        let kept = takeWhile (\<lambda>c. c \<noteq> 0x23) line;
            segments = filter (\<lambda>seg. seg \<noteq> []) (map strip (split_on kept 0x2C))
        in concat (map (spec_segment lim) segments))"

definition spec_parse :: "nat \<Rightarrow> py_str \<Rightarrow> int list" where
  "spec_parse lim text = concat (map (spec_line lim) (splitlines text))"

subsection \<open>The value of a decimal literal\<close>

text \<open>
  The number that the digits of a literal write in base ten, read left to right; a character
  that is not a digit (an underscore) is passed over.
\<close>

definition digit_step :: "nat \<Rightarrow> nat \<Rightarrow> nat" where
  "digit_step acc c = (case digit_val c of None \<Rightarrow> acc | Some d \<Rightarrow> 10 * acc + d)"

definition literal_value :: "py_str \<Rightarrow> nat" where
  "literal_value body = foldl digit_step 0 body"

section \<open>Exceptions and the values decoded from JSON\<close>

text \<open>
  An exception of the orchestrating code is kept by what the program can tell about it: whether
  it is an instance of \<^verbatim>\<open>Exception\<close> (the string is the name of its class, for the reader only),
  a \<^verbatim>\<open>KeyboardInterrupt\<close>, or a \<^verbatim>\<open>SystemExit\<close> with its status. The last two are not instances of
  \<^verbatim>\<open>Exception\<close>, so \<^verbatim>\<open>except Exception\<close> lets them through.
\<close>

datatype py_exn = is_Exception: Exception string | KeyboardInterrupt | SystemExit int

text \<open>
  What \<^verbatim>\<open>Response.json()\<close> returns: \<^verbatim>\<open>None\<close>, a \<^verbatim>\<open>bool\<close>, an \<^verbatim>\<open>int\<close>, a \<^verbatim>\<open>str\<close>, a \<^verbatim>\<open>list\<close> or a
  \<^verbatim>\<open>dict\<close> with string keys (kept as the list of its items, a key looked up at its first item).
  Numbers with a fraction are left out.
\<close>

datatype json = JNull | JBool bool | JInt int | JStr string | JArr "json list"
  | JObj "(string \<times> json) list"

text \<open>The truth value of a value in \<^verbatim>\<open>if x\<close> and \<^verbatim>\<open>x and y\<close>.\<close>

fun truthy :: "json \<Rightarrow> bool" where
  "truthy JNull = False"
| "truthy (JBool b) = b"
| "truthy (JInt i) = (i \<noteq> 0)"
| "truthy (JStr s) = (s \<noteq> [])"
| "truthy (JArr xs) = (xs \<noteq> [])"
| "truthy (JObj kvs) = (kvs \<noteq> [])"

text \<open>Sequencing of steps that may raise: the first exception ends the sequence.\<close>

definition and_then :: "'e + 'a \<Rightarrow> ('a \<Rightarrow> 'e + 'b) \<Rightarrow> 'e + 'b" where
  "and_then m f = (case m of Inl e \<Rightarrow> Inl e | Inr x \<Rightarrow> f x)"

text \<open>\<^verbatim>\<open>x.get(key, default)\<close>: only a \<^verbatim>\<open>dict\<close> has the method.\<close>

fun py_get :: "json \<Rightarrow> string \<Rightarrow> json \<Rightarrow> py_exn + json" where
  "py_get (JObj kvs) key dflt = Inr (case map_of kvs key of None \<Rightarrow> dflt | Some v \<Rightarrow> v)"
| "py_get _ key dflt = Inl (Exception ''AttributeError'')"

text \<open>\<^verbatim>\<open>len(x)\<close>.\<close>

fun py_len :: "json \<Rightarrow> py_exn + nat" where
  "py_len (JStr s) = Inr (length s)"
| "py_len (JArr xs) = Inr (length xs)"
| "py_len (JObj kvs) = Inr (length kvs)"
| "py_len _ = Inl (Exception ''TypeError'')"

text \<open>\<^verbatim>\<open>x[0]\<close>: the first item of a list, the first character of a string; no key of a decoded
  object is the integer 0.\<close>

fun py_item0 :: "json \<Rightarrow> py_exn + json" where
  "py_item0 (JArr []) = Inl (Exception ''IndexError'')"
| "py_item0 (JArr (x # xs)) = Inr x"
| "py_item0 (JStr []) = Inl (Exception ''IndexError'')"
| "py_item0 (JStr (c # cs)) = Inr (JStr [c])"
| "py_item0 (JObj kvs) = Inl (Exception ''KeyError'')"
| "py_item0 _ = Inl (Exception ''TypeError'')"

text \<open>\<^verbatim>\<open>x[:4]\<close>: the first four items of a string or of a list; no other value can be sliced.\<close>

fun py_slice4 :: "json \<Rightarrow> py_exn + json" where
  "py_slice4 (JStr s) = Inr (JStr (take 4 s))"
| "py_slice4 (JArr xs) = Inr (JArr (take 4 xs))"
| "py_slice4 _ = Inl (Exception ''TypeError'')"

text \<open>
  \<^verbatim>\<open>x.upper()\<close>, a method of strings only. The letters a to z become A to Z. The other
  characters are left as they are: their upper-case forms contain none of the letters of the
  three words the program looks for.
\<close>

definition upper_char :: "char \<Rightarrow> char" where
  "upper_char c = (let n = (of_char c :: nat) in if 97 \<le> n \<and> n \<le> 122 then char_of (n - 32) else c)"

fun py_upper :: "json \<Rightarrow> py_exn + string" where
  "py_upper (JStr s) = Inr (map upper_char s)"
| "py_upper _ = Inl (Exception ''AttributeError'')"

text \<open>\<^verbatim>\<open>needle in s\<close> for two strings.\<close>

fun starts_with :: "string \<Rightarrow> string \<Rightarrow> bool" where
  "starts_with s [] = True"
| "starts_with [] (c # cs) = False"
| "starts_with (d # ds) (c # cs) = (d = c \<and> starts_with ds cs)"

fun py_in :: "string \<Rightarrow> string \<Rightarrow> bool" where
  "py_in needle [] = (needle = [])"
| "py_in needle (c # cs) = (starts_with (c # cs) needle \<or> py_in needle cs)"

text \<open>\<^verbatim>\<open>str(i)\<close> for an integer.\<close>

fun dec_nat :: "nat \<Rightarrow> string" where
  "dec_nat n = (if n < 10 then [''0123456789'' ! n]
                else dec_nat (n div 10) @ [''0123456789'' ! (n mod 10)])"

definition py_str_int :: "int \<Rightarrow> string" where
  "py_str_int i = (if i < 0 then CHR ''-'' # dec_nat (nat (- i)) else dec_nat (nat i))"

text \<open>
  A value placed in an f-string. \<open>repr\<close> stands for Python's rendering of lists and
  dictionaries, which the program never inspects.
\<close>

fun py_format :: "(json \<Rightarrow> string) \<Rightarrow> json \<Rightarrow> string" where
  "py_format repr JNull = ''None''"
| "py_format repr (JBool b) = (if b then ''True'' else ''False'')"
| "py_format repr (JInt i) = py_str_int i"
| "py_format repr (JStr s) = s"
| "py_format repr v = repr v"

section \<open>The metadata lookup \<^verbatim>\<open>get_fill_metadata\<close>\<close>

text \<open>The dictionary that \<^verbatim>\<open>get_fill_metadata\<close> returns; \<open>fill_type\<close> is its key \<^verbatim>\<open>type\<close>.\<close>

record metadata =
  bunches :: json
  system :: string
  fill_type :: json
  year :: json

text \<open>
  The metadata service seen from the program: importing the client, authenticating, querying and
  decoding the answer either raise, or give the decoded answer \<^verbatim>\<open>resp_json\<close>.
\<close>

datatype api_outcome = ApiRaises py_exn | ApiJson json

text \<open>
  Lines 25 to 29 of the source: the attributes of the first entry of \<^verbatim>\<open>data\<close>; \<open>None\<close> when
  the condition \<^verbatim>\<open>data_list and len(data_list) > 0\<close> fails.
\<close>

definition first_attributes :: "json \<Rightarrow> py_exn + json option" where
  "first_attributes resp_json =
     and_then (py_get resp_json ''data'' JNull) (\<lambda>data_list.
       if \<not> truthy data_list then Inr None
       else and_then (py_len data_list) (\<lambda>n.
         if \<not> 0 < n then Inr None
         else and_then (py_item0 data_list) (\<lambda>data.
           and_then (py_get data ''attributes'' (JObj [])) (\<lambda>attributes.
             Inr (Some attributes)))))"

text \<open>Lines 35 to 40: the collision system guessed from the fill type.\<close>

definition collision_system :: "json \<Rightarrow> py_exn + string" where
  "collision_system ftype =
     (if truthy ftype then
        and_then (py_upper ftype) (\<lambda>up.
          if py_in ''ION'' up \<or> py_in ''PBPB'' up then Inr ''PbPb''
          else if py_in ''PROTON'' up then Inr ''pp''
          else Inr ''pp'')
      else Inr ''pp'')"

text \<open>Lines 30 to 47: the dictionary built from the attributes.\<close>

definition metadata_of :: "json \<Rightarrow> py_exn + metadata" where
  "metadata_of attributes =
     and_then (py_get attributes ''fill_type_runtime'' (JStr ''UNKNOWN'')) (\<lambda>ftype.
       and_then (py_get attributes ''bunches_colliding'' (JInt 0)) (\<lambda>bunches_colliding.
         and_then (py_get attributes ''start_time'' (JStr [])) (\<lambda>start_time.
           and_then (if truthy start_time then py_slice4 start_time
                     else Inr (JStr ''UNKNOWN'')) (\<lambda>year_value.
             and_then (collision_system ftype) (\<lambda>sys.
               Inr \<lparr>bunches = bunches_colliding, system = sys, fill_type = ftype,
                    year = year_value\<rparr>)))))"

text \<open>The body of the \<^verbatim>\<open>try\<close>: it returns the dictionary, falls through to \<^verbatim>\<open>None\<close>, or raises.\<close>

definition fetch_metadata :: "api_outcome \<Rightarrow> py_exn + metadata option" where
  "fetch_metadata outcome =
     (case outcome of
        ApiRaises e \<Rightarrow> Inl e
      | ApiJson resp_json \<Rightarrow>
          and_then (first_attributes resp_json) (\<lambda>found.
            case found of
              None \<Rightarrow> Inr None
            | Some attributes \<Rightarrow> and_then (metadata_of attributes) (\<lambda>m. Inr (Some m))))"

section \<open>What the program does to the outside\<close>

text \<open>
  Each \<^verbatim>\<open>print\<close> of the source is kept as the statement that ran and the values it shows, not
  as text. A \<^verbatim>\<open>print\<close> can raise like any other call (a closed standard output, an interrupt).
  This is modelled for the \<^verbatim>\<open>print\<close> of the \<^verbatim>\<open>finally\<close> block of \<^verbatim>\<open>download_plots\<close>, the one on
  which the calls that follow depend; every other \<^verbatim>\<open>print\<close> is taken to return.
\<close>

datatype message =
    CreatedDirectory string
  | UsingProfile string
  | InitializingChrome
  | ErrorInstallingDriver py_exn
  | ErrorLaunchingChrome py_exn
  | LoginBanner nat
  | ProcessingFill int
  | MetadataWarning int py_exn
  | MetadataFound string json
  | WaitingToRender nat
  | UpdatedTitle string
  | CouldNotUpdateTitle py_exn
  | SavedScreenshot string
  | ErrorOccurred py_exn
  | ClosingBrowser
  | PromptHelp nat
  | ReadingFrom py_str
  | ErrorReadingFile py_exn
  | FoundFills nat "int list"
  | NoValidFills

text \<open>The calls to the file system, to the browser and to the metadata service, with their
  arguments; a call is recorded when it is made, whether or not it raises.\<close>

datatype event =
    Print message
  | PathExists string
  | MakeDirs string
  | InstallDriver
  | LaunchChrome "string list"
  | Get string
  | Input string
  | Sleep nat
  | ExecuteScript string
  | SaveScreenshot string
  | Quit
  | QueryFills int
  | IsFile py_str
  | ReadFile py_str

text \<open>A piece of program: the events it produced, and the exception it raised if it did.\<close>

type_synonym step = "event list \<times> py_exn option"

definition call :: "event \<Rightarrow> py_exn option \<Rightarrow> step" where
  "call ev raised = ([ev], raised)"

definition say :: "message \<Rightarrow> step" where
  "say m = ([Print m], None)"

definition skip :: step where
  "skip = ([], None)"

definition then_do :: "step \<Rightarrow> step \<Rightarrow> step" where
  "then_do a b = (case a of (evs, None) \<Rightarrow> (evs @ fst b, snd b) | (evs, Some e) \<Rightarrow> (evs, Some e))"

fun in_order :: "step list \<Rightarrow> step" where
  "in_order [] = skip"
| "in_order (a # rest) = then_do a (in_order rest)"

text \<open>\<^verbatim>\<open>try: body except Exception as e: handler(e)\<close>.\<close>

definition try_except :: "step \<Rightarrow> (py_exn \<Rightarrow> step) \<Rightarrow> step" where
  "try_except body handler =
     (case body of
        (evs, Some (Exception c)) \<Rightarrow> then_do (evs, None) (handler (Exception c))
      | _ \<Rightarrow> body)"

text \<open>\<^verbatim>\<open>try: body finally: fin\<close>: \<open>fin\<close> always runs; an exception of \<open>fin\<close> replaces the one
  of \<open>body\<close>.\<close>

definition try_finally :: "step \<Rightarrow> step \<Rightarrow> step" where
  "try_finally body fin =
     (case fin of
        (evs, None) \<Rightarrow> (fst body @ evs, snd body)
      | (evs, Some e) \<Rightarrow> (fst body @ evs, Some e))"

text \<open>\<^verbatim>\<open>try: attempt except Exception as e: print(msg(e)); return\<close>, followed by the rest of the
  function.\<close>

definition or_return :: "step \<Rightarrow> (py_exn \<Rightarrow> message) \<Rightarrow> step \<Rightarrow> step" where
  "or_return attempt msg rest =
     (case attempt of
        (evs, None) \<Rightarrow> then_do (evs, None) rest
      | (evs, Some (Exception c)) \<Rightarrow> (evs @ [Print (msg (Exception c))], None)
      | (evs, Some e) \<Rightarrow> (evs, Some e))"

text \<open>\<^verbatim>\<open>get_fill_metadata\<close>: an \<^verbatim>\<open>Exception\<close> of the body is printed as a warning and the result
  is \<^verbatim>\<open>None\<close>; any other exception leaves the function.\<close>

definition get_fill_metadata :: "api_outcome \<Rightarrow> int \<Rightarrow> event list \<times> (py_exn + metadata option)" where
  "get_fill_metadata outcome fill_number =
     (case fetch_metadata outcome of
        Inr result \<Rightarrow> ([QueryFills fill_number], Inr result)
      | Inl (Exception c) \<Rightarrow>
          ([QueryFills fill_number, Print (MetadataWarning fill_number (Exception c))], Inr None)
      | Inl e \<Rightarrow> ([QueryFills fill_number], Inl e))"

subsection \<open>The address of a fill report\<close>

definition always_safe :: "char \<Rightarrow> bool" where
  "always_safe c =
     (let n = (of_char c :: nat)
      in (65 \<le> n \<and> n \<le> 90) \<or> (97 \<le> n \<and> n \<le> 122) \<or> (48 \<le> n \<and> n \<le> 57) \<or>
         c \<in> set ''_.-~'')"

definition percent :: "nat \<Rightarrow> string" where
  "percent b = [CHR ''%'', ''0123456789ABCDEF'' ! (b div 16), ''0123456789ABCDEF'' ! (b mod 16)]"

text \<open>\<^verbatim>\<open>urllib.parse.quote_plus(s, safe)\<close>: a character that is not safe is written as the bytes
  of its UTF-8 encoding, in hexadecimal; a space becomes a plus sign.\<close>

definition quote_char :: "string \<Rightarrow> char \<Rightarrow> string" where
  "quote_char safe c =
     (let n = (of_char c :: nat)
      in if c = CHR '' '' then ''+''
         else if always_safe c \<or> c \<in> set safe then [c]
         else if n < 128 then percent n
         else percent (192 + n div 64) @ percent (128 + n mod 64))"

definition quote_plus :: "string \<Rightarrow> string \<Rightarrow> string" where
  "quote_plus safe s = concat (map (quote_char safe) s)"

text \<open>\<^verbatim>\<open>sep.join(xs)\<close>.\<close>

fun join :: "'a list \<Rightarrow> 'a list list \<Rightarrow> 'a list" where
  "join sep [] = []"
| "join sep [x] = x"
| "join sep (x # y # rest) = x @ sep @ join sep (y # rest)"

definition urlencode :: "(string \<times> string) list \<Rightarrow> string \<Rightarrow> string" where
  "urlencode params safe =
     join ''&'' (map (\<lambda>(k, v). quote_plus safe k @ ''='' @ quote_plus safe v) params)"

definition base_url :: string where
  "base_url = ''https://cmsoms.cern.ch/cms/fills/report/fullscreen/12656''"

definition base_params :: "(string \<times> string) list" where
  "base_params =
     [(''stable_beams'', ''true''),
      (''props.21748_12648.plots'', ''Delivered lumi|Recorded lumi''),
      (''props.21748_12648.plotbands'', ''downtimes''),
      (''props.21748_12648.plotlines'', ''run_starts|stable_beams''),
      (''props.21847_21846.plots'',
       ''B1orB2|Intensity beam 1|Intensity beam 2|beam energy|vertical crossing angle|beta* Y|beta* X''),
      (''props.21847_21846.plotbands'', ''downtimes''),
      (''props.21847_21846.plotlines'', ''run_starts|stable_beams'')]"

definition full_url :: "int \<Rightarrow> string" where
  "full_url fill_number =
     base_url @ ''?'' @ urlencode (base_params @ [(''cms_fill'', py_str_int fill_number)]) ''|''"

subsection \<open>One pass of the loop\<close>

definition new_title :: "(json \<Rightarrow> string) \<Rightarrow> int \<Rightarrow> metadata \<Rightarrow> string" where
  "new_title repr fill_number meta =
     ''Fill '' @ py_str_int fill_number @ '' Bunches '' @ py_format repr (bunches meta) @
     '' ('' @ system meta @ '' '' @ py_format repr (year meta) @ '')''"

text \<open>The script of lines 141 to 150, with the title placed between two quotes (character 0x27).\<close>

definition title_script :: "string \<Rightarrow> string" where
  "title_script title =
     ''\<newline>'' @
     ''                var titleEl = document.querySelector('h3') || document.querySelector('h1');\<newline>'' @
     ''                if (titleEl) {\<newline>'' @
     ''                    // Prepend the new info to the existing title\<newline>'' @
     ''                    titleEl.textContent = '' @ [CHR 0x27] @ title @ '' | ' + titleEl.textContent;\<newline>'' @
     ''                    titleEl.style.color = '#d32f2f'; // Red color\<newline>'' @
     ''                    titleEl.style.fontWeight = 'bold';\<newline>'' @
     ''                    titleEl.style.fontSize = '1.5em';\<newline>'' @
     ''                }\<newline>'' @
     ''                ''"

definition meta_str :: "(json \<Rightarrow> string) \<Rightarrow> metadata \<Rightarrow> string" where
  "meta_str repr meta =
     ''['' @ py_format repr (year meta) @ '' '' @ system meta @ '' '' @
     py_format repr (bunches meta) @ ''b]''"

text \<open>Lines 157 to 162: the name of the screenshot file; \<^verbatim>\<open>os.path.join\<close> puts a slash between
  the directory and the file name.\<close>

definition output_dir :: string where
  "output_dir = ''fills''"

definition filename_suffix :: "(json \<Rightarrow> string) \<Rightarrow> metadata option \<Rightarrow> string" where
  "filename_suffix repr meta =
     (case meta of
        None \<Rightarrow> []
      | Some m \<Rightarrow> ''_'' @ system m @ ''_'' @ py_format repr (bunches m) @ ''b_'' @
                  py_format repr (year m))"

definition filename :: "(json \<Rightarrow> string) \<Rightarrow> int \<Rightarrow> metadata option \<Rightarrow> string" where
  "filename repr fill_number meta =
     output_dir @ ''/'' @ ''fill_'' @ py_str_int fill_number @ filename_suffix repr meta @ ''.png''"

text \<open>What the collaborators do during one pass of the loop.\<close>

record fill_io =
  api :: api_outcome
  get_raises :: "py_exn option"
  sleep_raises :: "py_exn option"
  script_raises :: "py_exn option"
  screenshot_raises :: "py_exn option"

definition process_fill :: "(json \<Rightarrow> string) \<Rightarrow> fill_io \<Rightarrow> int \<Rightarrow> step" where
  "process_fill repr io fill_number =
     (case get_fill_metadata (api io) fill_number of
        (looked, Inl e) \<Rightarrow> then_do (say (ProcessingFill fill_number)) (looked, Some e)
      | (looked, Inr meta) \<Rightarrow>
          in_order
            [say (ProcessingFill fill_number),
             (looked, None),
             (case meta of
                None \<Rightarrow> skip
              | Some m \<Rightarrow> say (MetadataFound (meta_str repr m) (fill_type m))),
             call (Get (full_url fill_number)) (get_raises io),
             say (WaitingToRender 5),
             call (Sleep 5) (sleep_raises io),
             (case meta of
                None \<Rightarrow> skip
              | Some m \<Rightarrow>
                  try_except
                    (in_order
                       [call (ExecuteScript (title_script (new_title repr fill_number m)))
                          (script_raises io),
                        say (UpdatedTitle (new_title repr fill_number m))])
                    (\<lambda>e. say (CouldNotUpdateTitle e))),
             call (SaveScreenshot (filename repr fill_number meta)) (screenshot_raises io),
             say (SavedScreenshot (filename repr fill_number meta))])"

text \<open>The loop \<^verbatim>\<open>for fill_number in fill_numbers\<close>; \<open>i\<close> counts the passes.\<close>

fun for_fills :: "(json \<Rightarrow> string) \<Rightarrow> (nat \<Rightarrow> fill_io) \<Rightarrow> nat \<Rightarrow> int list \<Rightarrow> step" where
  "for_fills repr ios i [] = skip"
| "for_fills repr ios i (fill_number # rest) =
     then_do (process_fill repr (ios i) fill_number) (for_fills repr ios (Suc i) rest)"

section \<open>The orchestrator \<^verbatim>\<open>download_plots\<close>\<close>

record world =
  dir_exists :: bool
  makedirs_raises :: "py_exn option"
  install_raises :: "py_exn option"
  launch_raises :: "py_exn option"
  landing_raises :: "py_exn option"
  input_raises :: "py_exn option"
  fill_ios :: "nat \<Rightarrow> fill_io"
  closing_print_raises :: "py_exn option"
  quit_raises :: "py_exn option"

definition user_data_dir :: string where
  "user_data_dir = ''/Users/leejunseok/chrome_debug_profile''"

definition chrome_arguments :: "string list" where
  "chrome_arguments = [''--start-maximized'', ''user-data-dir='' @ user_data_dir]"

text \<open>
  Lines 87 to 170: the \<^verbatim>\<open>try\<close> with its \<^verbatim>\<open>except Exception\<close> and its \<^verbatim>\<open>finally\<close>. The
  \<^verbatim>\<open>finally\<close> block is \<^verbatim>\<open>print("\nClosing browser...")\<close> followed by \<^verbatim>\<open>driver.quit()\<close>: when the
  \<^verbatim>\<open>print\<close> raises, \<^verbatim>\<open>driver.quit()\<close> is not reached. An exception of another \<^verbatim>\<open>print\<close>
  of these lines would end the \<^verbatim>\<open>try\<close> or its handler as an exception of the call next to it
  does, and lead to the same \<^verbatim>\<open>finally\<close> block.
\<close>

definition session :: "(json \<Rightarrow> string) \<Rightarrow> world \<Rightarrow> int list \<Rightarrow> step" where
  "session repr w fill_numbers =
     try_finally
       (try_except
          (in_order
             [call (Get base_url) (landing_raises w),
              say (LoginBanner 1), say (LoginBanner 2), say (LoginBanner 3), say (LoginBanner 4),
              say (LoginBanner 5),
              call (Input ''Press Enter to continue... '') (input_raises w),
              for_fills repr (fill_ios w) 0 fill_numbers])
          (\<lambda>e. say (ErrorOccurred e)))
       (in_order [call (Print ClosingBrowser) (closing_print_raises w),
                  call Quit (quit_raises w)])"

definition download_plots :: "(json \<Rightarrow> string) \<Rightarrow> world \<Rightarrow> int list \<Rightarrow> step" where
  "download_plots repr w fill_numbers =
     then_do
       (in_order
          [call (PathExists output_dir) None,
           (if \<not> dir_exists w
            then in_order [call (MakeDirs output_dir) (makedirs_raises w),
                           say (CreatedDirectory output_dir)]
            else skip),
           say (UsingProfile user_data_dir),
           say InitializingChrome])
       (or_return (call InstallDriver (install_raises w)) ErrorInstallingDriver
          (or_return (call (LaunchChrome chrome_arguments) (launch_raises w)) ErrorLaunchingChrome
             (session repr w fill_numbers)))"

section \<open>The script run as a program\<close>

text \<open>
  The surroundings of the script: the command line, the file system (which paths name a file,
  what reading a file gives), what the user types at the prompt or the exception that
  \<^verbatim>\<open>input\<close> raises, and the collaborators of \<^verbatim>\<open>download_plots\<close>. Arguments, paths and contents
  are Python strings, lists of code points.
\<close>

record os_env =
  argv :: "py_str list"
  isfile :: "py_str \<Rightarrow> bool"
  read_file :: "py_str \<Rightarrow> py_exn + py_str"
  typed :: "py_exn + py_str"
  browser :: world

definition raise_of :: "py_error \<Rightarrow> py_exn" where
  "raise_of e = (case e of ValueError \<Rightarrow> Exception ''ValueError'' | IndexError \<Rightarrow> Exception ''IndexError'')"

definition parse_text :: "nat \<Rightarrow> py_str \<Rightarrow> py_exn + int list" where
  "parse_text lim text = (case parse_input lim text of Inl e \<Rightarrow> Inl (raise_of e) | Inr fills \<Rightarrow> Inr fills)"

text \<open>\<^verbatim>\<open>with open(path, 'r') as f: text = f.read()\<close> followed by \<^verbatim>\<open>parse_input(text)\<close>.\<close>

definition read_and_parse :: "nat \<Rightarrow> os_env \<Rightarrow> py_str \<Rightarrow> event list \<times> (py_exn + int list)" where
  "read_and_parse lim env path =
     ([ReadFile path], and_then (read_file env path) (parse_text lim))"

text \<open>Lines 211 to 226: the program was started with arguments.\<close>

definition fills_from_arguments :: "nat \<Rightarrow> os_env \<Rightarrow> event list \<times> (py_exn + int list)" where
  "fills_from_arguments lim env =
     (let first_arg = argv env ! 1 in
      if isfile env first_arg then
        (case read_and_parse lim env first_arg of
           (evs, Inl (Exception c)) \<Rightarrow>
             ([IsFile first_arg, Print (ReadingFrom first_arg)] @ evs @
              [Print (ErrorReadingFile (Exception c))], Inl (SystemExit 1))
         | (evs, r) \<Rightarrow> ([IsFile first_arg, Print (ReadingFrom first_arg)] @ evs, r))
      else ([IsFile first_arg], parse_text lim (join [0x20] (drop 1 (argv env)))))"

text \<open>Lines 228 to 243: the program was started without arguments and asks.\<close>

definition fills_from_prompt :: "nat \<Rightarrow> os_env \<Rightarrow> event list \<times> (py_exn + int list)" where
  "fills_from_prompt lim env =
     (case (case typed env of
              Inl e \<Rightarrow> ([Print (PromptHelp 1), Print (PromptHelp 2), Input ''> ''], Inl e)
            | Inr user_input \<Rightarrow>
                if strip user_input \<noteq> [] then
                  if isfile env (strip user_input) then
                    (case read_and_parse lim env (strip user_input) of
                       (evs, r) \<Rightarrow>
                         ([Print (PromptHelp 1), Print (PromptHelp 2), Input ''> '',
                           IsFile (strip user_input), Print (ReadingFrom (strip user_input))] @ evs,
                          r))
                  else ([Print (PromptHelp 1), Print (PromptHelp 2), Input ''> '',
                         IsFile (strip user_input)], parse_text lim user_input)
                else ([Print (PromptHelp 1), Print (PromptHelp 2), Input ''> ''], Inr [])) of
        (evs, Inl KeyboardInterrupt) \<Rightarrow> (evs, Inl (SystemExit 0))
      | (evs, r) \<Rightarrow> (evs, r))"

definition main :: "nat \<Rightarrow> (json \<Rightarrow> string) \<Rightarrow> os_env \<Rightarrow> step" where
  "main lim repr env =
     (case (if 1 < length (argv env) then fills_from_arguments lim env
            else fills_from_prompt lim env) of
        (evs, Inl e) \<Rightarrow> (evs, Some e)
      | (evs, Inr fill_list) \<Rightarrow>
          if fill_list \<noteq> [] then
            in_order [(evs, None), say (FoundFills (length fill_list) fill_list),
                      download_plots repr (browser env) fill_list]
          else in_order [(evs, None), say NoValidFills])"

text \<open>How the process ends: status 0 at the end of the script, the status given to
  \<^verbatim>\<open>sys.exit\<close>, or a traceback for an exception that nothing caught.\<close>

datatype ending = Finished | Exited int | Traceback py_exn

definition ending_of :: "step \<Rightarrow> ending" where
  "ending_of st =
     (case snd st of
        None \<Rightarrow> Finished
      | Some (SystemExit k) \<Rightarrow> Exited k
      | Some e \<Rightarrow> Traceback e)"

section \<open>Sample surroundings\<close>

text \<open>
  An answer of the metadata service, collaborators that never raise, and variations of them in
  which one call raises; the examples below run the program in these surroundings. \<open>plain_repr\<close>
  renders lists and dictionaries, which occur in none of the examples.
\<close>

definition answer_2024 :: json where
  "answer_2024 =
     JObj [(''data'', JArr [JObj [(''attributes'',
       JObj [(''fill_type_runtime'', JStr ''PROTONS''), (''bunches_colliding'', JInt 2400),
             (''start_time'', JStr ''2024-05-01 10:00:00'')])]])]"

definition answer_bare :: json where
  "answer_bare = JObj [(''data'', JArr [JObj []])]"

definition plain_repr :: "json \<Rightarrow> string" where
  "plain_repr v = ''...''"

definition calm :: fill_io where
  "calm = \<lparr>api = ApiJson answer_2024, get_raises = None, sleep_raises = None,
           script_raises = None, screenshot_raises = None\<rparr>"

definition calm_world :: world where
  "calm_world = \<lparr>dir_exists = True, makedirs_raises = None, install_raises = None,
                 launch_raises = None, landing_raises = None, input_raises = None,
                 fill_ios = (\<lambda>i. calm), closing_print_raises = None, quit_raises = None\<rparr>"




definition interrupted_world :: world where
  "interrupted_world = calm_world\<lparr>input_raises := Some KeyboardInterrupt\<rparr>"

text \<open>The standard output is closed when the \<^verbatim>\<open>finally\<close> block prints.\<close>

definition muted_world :: world where
  "muted_world = calm_world\<lparr>closing_print_raises := Some (Exception ''BrokenPipeError'')\<rparr>"

definition locked_file :: os_env where
  "locked_file =
     \<lparr>argv = [codes ''download_plots.py''], isfile = (\<lambda>p. p = codes ''fills.txt''),
      read_file = (\<lambda>p. Inl (Exception ''PermissionError'')), typed = Inr (codes ''fills.txt''),
      browser = calm_world\<rparr>"

definition two_files :: os_env where
  "two_files =
     \<lparr>argv = [codes ''download_plots.py'', codes ''fills.txt'', codes ''more.txt''],
      isfile = (\<lambda>p. p = codes ''fills.txt'' \<or> p = codes ''more.txt''),
      read_file = (\<lambda>p. if p = codes ''fills.txt'' then Inr (codes ''222'') else Inr (codes ''333'')),
      typed = Inl KeyboardInterrupt, browser = interrupted_world\<rparr>"

section \<open>Properties of the input parser\<close>

subsection \<open>The parser returns\<close>

lemma py_int_raises:
  "py_int lim s = Inl e \<Longrightarrow> e = ValueError"
  by (auto simp add: py_int_def Let_def split: list.splits if_splits option.splits prod.splits)

lemma parse_parts_returns: "\<exists>fills'. parse_parts lim parts fills = Inr fills'"
proof (induction parts arbitrary: fills)
  case Nil
  show ?case by simp
next
  case (Cons part parts)
  show ?case
  proof (cases "split_ws (strip part)")
    case Nil
    then show ?thesis using Cons.IH by (simp add: Let_def)
  next
    case toks: (Cons tok toks)
    show ?thesis
    proof (cases "py_int lim tok")
      case (Inl e)
      then have "e = ValueError" by (rule py_int_raises)
      with Inl toks show ?thesis using Cons.IH by (simp add: Let_def index0_def)
    next
      case (Inr n)
      with toks show ?thesis using Cons.IH by (simp add: Let_def index0_def)
    qed
  qed
qed

lemma split_from_nonempty: "split_from sep cur s \<noteq> []"
  by (induction s arbitrary: cur) simp_all

lemma index0_returns: "xs \<noteq> [] \<Longrightarrow> \<exists>x. index0 xs = Inr x"
  by (cases xs) (simp_all add: index0_def)

lemma parse_lines_returns: "\<exists>fills'. parse_lines lim lines fills = Inr fills'"
proof (induction lines arbitrary: fills)
  case Nil
  show ?case by simp
next
  case (Cons line lines)
  have "\<exists>kept. index0 (split_on (strip line) 0x23) = Inr kept"
    unfolding split_on_def by (rule index0_returns [OF split_from_nonempty])
  then obtain kept where kept:
    "(if contains (strip line) 0x23 then index0 (split_on (strip line) 0x23)
      else Inr (strip line)) = Inr kept"
    by (cases "contains (strip line) 0x23") auto
  obtain fills' where parts: "parse_parts lim (split_on kept 0x2C) fills = Inr fills'"
    using parse_parts_returns by blast
  show ?case
    unfolding parse_lines.simps Let_def kept
    using Cons.IH by (simp add: parts)
qed

lemma parse_lines_comments:
  "\<forall>line \<in> set lines. strip line = [] \<or> startswith (strip line) 0x23 \<Longrightarrow>
   parse_lines lim lines fills = Inr fills"
  by (induction lines arbitrary: fills) (auto simp add: Let_def)

subsection \<open>Every token is made of characters of the input\<close>

lemma set_splitlines_from:
  "l \<in> set (splitlines_from cur s) \<Longrightarrow> set l \<subseteq> set cur \<union> set s"
  by (induction cur s rule: splitlines_from.induct) (auto split: if_splits)

lemma set_splitlines: "l \<in> set (splitlines s) \<Longrightarrow> set l \<subseteq> set s"
  using set_splitlines_from [of l "[]" s] by (simp add: splitlines_def)

lemma set_strip: "set (strip s) \<subseteq> set s"
  by (auto simp add: strip_def dest!: set_dropWhileD)

lemma set_split_from:
  "l \<in> set (split_from sep cur s) \<Longrightarrow> set l \<subseteq> set cur \<union> set s"
proof (induction s arbitrary: cur)
  case Nil
  then show ?case by simp
next
  case (Cons c cs)
  show ?case
  proof (cases "c = sep")
    case True
    with Cons.prems have "l = rev cur \<or> l \<in> set (split_from sep [] cs)" by simp
    then show ?thesis using Cons.IH [of "[]"] by auto
  next
    case False
    with Cons.prems have "l \<in> set (split_from sep (c # cur) cs)" by simp
    from Cons.IH [OF this] show ?thesis by auto
  qed
qed

lemma set_split_on: "l \<in> set (split_on s sep) \<Longrightarrow> set l \<subseteq> set s"
  using set_split_from [of l sep "[]" s] by (simp add: split_on_def)

lemma set_split_ws_from:
  "l \<in> set (split_ws_from cur s) \<Longrightarrow> set l \<subseteq> set cur \<union> set s"
proof (induction s arbitrary: cur)
  case Nil
  then show ?case by (simp split: if_splits)
next
  case (Cons c cs)
  show ?case
  proof (cases "is_space c")
    case True
    with Cons.prems have "l = rev cur \<or> l \<in> set (split_ws_from [] cs)"
      by (simp split: if_splits)
    then show ?thesis using Cons.IH [of "[]"] by auto
  next
    case False
    with Cons.prems have "l \<in> set (split_ws_from (c # cur) cs)" by simp
    from Cons.IH [OF this] show ?thesis by auto
  qed
qed

lemma set_split_ws: "l \<in> set (split_ws s) \<Longrightarrow> set l \<subseteq> set s"
  using set_split_ws_from [of l "[]" s] by (simp add: split_ws_def)

lemma parse_parts_elem:
  "parse_parts lim parts fills = Inr fills' \<Longrightarrow> n \<in> set fills' \<Longrightarrow>
   n \<in> set fills \<or> (\<exists>part \<in> set parts. \<exists>tok. set tok \<subseteq> set part \<and> py_int lim tok = Inr n)"
proof (induction parts arbitrary: fills)
  case Nil
  then show ?case by simp
next
  case (Cons part parts)
  show ?case
  proof (cases "split_ws (strip part)")
    case Nil
    with Cons.prems have "parse_parts lim parts fills = Inr fills'"
      by (simp add: Let_def split: if_splits)
    from Cons.IH [OF this Cons.prems(2)] show ?thesis by auto
  next
    case toks: (Cons tok toks)
    then have "tok \<in> set (split_ws (strip part))" by simp
    then have sub: "set tok \<subseteq> set part"
      using set_split_ws set_strip by blast
    from toks have ne: "strip part \<noteq> []"
      by (auto simp add: split_ws_def)
    show ?thesis
    proof (cases "py_int lim tok")
      case (Inl e)
      then have "e = ValueError" by (rule py_int_raises)
      with Inl toks ne Cons.prems have "parse_parts lim parts fills = Inr fills'"
        by (simp add: Let_def index0_def)
      from Cons.IH [OF this Cons.prems(2)] show ?thesis by auto
    next
      case (Inr m)
      with toks ne Cons.prems have "parse_parts lim parts (fills @ [m]) = Inr fills'"
        by (simp add: Let_def index0_def)
      from Cons.IH [OF this Cons.prems(2)] Inr sub show ?thesis by auto
    qed
  qed
qed

lemma index0_split_from:
  "index0 (split_from sep cur s) = Inr (rev cur @ takeWhile (\<lambda>c. c \<noteq> sep) s)"
  by (induction s arbitrary: cur) (simp_all add: index0_def)

lemma index0_split_on:
  "index0 (split_on s sep) = Inr (takeWhile (\<lambda>c. c \<noteq> sep) s)"
  by (simp add: split_on_def index0_split_from)

lemma parse_lines_elem:
  "parse_lines lim lines fills = Inr fills' \<Longrightarrow> n \<in> set fills' \<Longrightarrow>
   n \<in> set fills \<or> (\<exists>line \<in> set lines. \<exists>tok. set tok \<subseteq> set line \<and> py_int lim tok = Inr n)"
proof (induction lines arbitrary: fills)
  case Nil
  then show ?case by simp
next
  case (Cons line lines)
  show ?case
  proof (cases "strip line = [] \<or> startswith (strip line) 0x23")
    case True
    with Cons.prems have "parse_lines lim lines fills = Inr fills'"
      by (auto simp add: Let_def split: if_splits)
    from Cons.IH [OF this Cons.prems(2)] show ?thesis by auto
  next
    case False
    obtain kept where kept:
      "(if contains (strip line) 0x23 then index0 (split_on (strip line) 0x23)
        else Inr (strip line)) = Inr kept" and sub: "set kept \<subseteq> set line"
      using set_strip [of line] set_takeWhileD [of _ "\<lambda>c. c \<noteq> 0x23" "strip line"]
      by (cases "contains (strip line) 0x23") (auto simp add: index0_split_on)
    obtain mid where mid: "parse_parts lim (split_on kept 0x2C) fills = Inr mid"
      using parse_parts_returns by blast
    from Cons.prems(1) False have rest: "parse_lines lim lines mid = Inr fills'"
      unfolding parse_lines.simps Let_def kept by (simp add: mid)
    from Cons.IH [OF rest Cons.prems(2)] show ?thesis
    proof
      assume "n \<in> set mid"
      from parse_parts_elem [OF mid this] show ?thesis
      proof
        assume "n \<in> set fills"
        then show ?thesis by simp
      next
        assume "\<exists>part \<in> set (split_on kept 0x2C). \<exists>tok. set tok \<subseteq> set part \<and> py_int lim tok = Inr n"
        then obtain part tok where "part \<in> set (split_on kept 0x2C)"
          "set tok \<subseteq> set part" "py_int lim tok = Inr n" by blast
        with set_split_on [of part kept] sub have "set tok \<subseteq> set line \<and> py_int lim tok = Inr n"
          by blast
        then show ?thesis by auto
      qed
    next
      assume "\<exists>line \<in> set lines. \<exists>tok. set tok \<subseteq> set line \<and> py_int lim tok = Inr n"
      then show ?thesis by auto
    qed
  qed
qed

lemma parse_input_elem:
  assumes "parse_input lim s = Inr fills" and "n \<in> set fills"
  shows "\<exists>tok. set tok \<subseteq> set s \<and> py_int lim tok = Inr n"
proof -
  from parse_lines_elem [OF assms(1) [unfolded parse_input_def] assms(2)]
  obtain line tok where "line \<in> set (splitlines s)" "set tok \<subseteq> set line" "py_int lim tok = Inr n"
    by auto
  with set_splitlines [of line s] show ?thesis by blast
qed

subsection \<open>The value and the sign of a parsed literal\<close>

lemmas parser_eval =
  parse_input_def splitlines_def strip_def split_on_def split_ws_def is_space_def whitespace_def
  is_linebreak_def linebreaks_def startswith_def contains_def index0_def py_int_def digit_val_def
  digit_zeros_def codes_def spec_parse_def spec_line_def spec_segment_def literal_value_def
  Let_def

lemma digit_val_underscore: "digit_val 0x5F = None"
  by (simp add: digit_val_def digit_zeros_def)

lemma digit_val_minus: "digit_val 0x2D = None"
  by (simp add: digit_val_def digit_zeros_def)

lemma digit_val_plus: "digit_val 0x2B = None"
  by (simp add: digit_val_def digit_zeros_def)

lemma int_digits_value:
  "int_digits acc k us cs = Some (v, k') \<Longrightarrow>
   v = foldl digit_step acc cs \<and> (\<forall>c \<in> set cs. c = 0x5F \<or> digit_val c \<noteq> None)"
proof (induction cs arbitrary: acc k us)
  case Nil
  then show ?case by (simp split: if_splits)
next
  case (Cons c cs)
  show ?case
  proof (cases "c = 0x5F")
    case True
    with Cons.prems have "int_digits acc k True cs = Some (v, k')" by (simp split: if_splits)
    from Cons.IH [OF this] True show ?thesis
      by (simp add: digit_step_def digit_val_underscore)
  next
    case False
    with Cons.prems obtain d where d: "digit_val c = Some d"
      and rest: "int_digits (10 * acc + d) (Suc k) False cs = Some (v, k')"
      by (auto split: option.splits)
    from Cons.IH [OF rest] d show ?thesis
      by (simp add: digit_step_def)
  qed
qed

lemma foldl_digit_step_zero:
  "foldl digit_step acc cs = 0 \<longleftrightarrow>
   acc = 0 \<and> (\<forall>c \<in> set cs. digit_val c = None \<or> digit_val c = Some 0)"
proof (induction cs arbitrary: acc)
  case Nil
  show ?case by simp
next
  case (Cons c cs)
  have "digit_step acc c = 0 \<longleftrightarrow> acc = 0 \<and> (digit_val c = None \<or> digit_val c = Some 0)"
    by (cases "digit_val c") (simp_all add: digit_step_def)
  then show ?case
    by (auto simp add: Cons.IH)
qed

lemma literal_value_zero:
  "literal_value body = 0 \<longleftrightarrow> (\<forall>c \<in> set body. digit_val c = None \<or> digit_val c = Some 0)"
  by (simp add: literal_value_def foldl_digit_step_zero)

lemma py_int_body:
  assumes "py_int lim tok = Inr n"
  shows "\<exists>sign body c cs r. tok = sign @ body \<and> (sign = [] \<or> sign = [0x2B] \<or> sign = [0x2D]) \<and>
           body = c # cs \<and> c \<noteq> 0x5F \<and> int_digits 0 0 False body = Some r \<and>
           n = (if sign = [0x2D] then - int (fst r) else int (fst r))"
proof (cases tok)
  case Nil
  with assms show ?thesis by (simp add: py_int_def)
next
  case (Cons a as)
  show ?thesis
  proof (cases "a = 0x2D \<or> a = 0x2B")
    case True
    with Cons assms have "as \<noteq> []" "\<not> startswith as 0x5F" "int_digits 0 0 False as \<noteq> None"
      by (auto simp add: py_int_def split: if_splits option.splits)
    then obtain c cs r where body: "as = c # cs" "c \<noteq> 0x5F" "int_digits 0 0 False as = Some r"
      by (cases as) (auto simp add: startswith_def)
    with Cons True assms have "n = (if a = 0x2D then - int (fst r) else int (fst r))"
      by (auto simp add: py_int_def startswith_def split: if_splits prod.splits)
    with Cons True body have "tok = [a] @ as \<and> ([a] = [] \<or> [a] = [0x2B] \<or> [a] = [0x2D]) \<and>
        as = c # cs \<and> c \<noteq> 0x5F \<and> int_digits 0 0 False as = Some r \<and>
        n = (if [a] = [0x2D] then - int (fst r) else int (fst r))"
      by auto
    then show ?thesis by blast
  next
    case False
    with Cons assms have "\<not> startswith tok 0x5F" "int_digits 0 0 False tok \<noteq> None"
      by (auto simp add: py_int_def split: if_splits option.splits)
    then obtain r where body: "a \<noteq> 0x5F" "int_digits 0 0 False tok = Some r"
      using Cons by (auto simp add: startswith_def)
    with Cons False assms have "n = int (fst r)"
      by (auto simp add: py_int_def startswith_def split: if_splits prod.splits)
    with Cons body have "tok = [] @ tok \<and> ([] = [] \<or> [] = [0x2B] \<or> [] = [0x2D]) \<and>
        tok = a # as \<and> a \<noteq> 0x5F \<and> int_digits 0 0 False tok = Some r \<and>
        n = (if [] = [0x2D] then - int (fst r) else int (fst r))"
      by auto
    then show ?thesis by blast
  qed
qed

lemma py_int_literal:
  assumes "py_int lim tok = Inr n"
  shows "\<exists>sign body. tok = sign @ body \<and> (sign = [] \<or> sign = [0x2B] \<or> sign = [0x2D]) \<and>
           (\<forall>c \<in> set body. c = 0x5F \<or> digit_val c \<noteq> None) \<and>
           (\<exists>c \<in> set body. digit_val c \<noteq> None) \<and>
           n = (if sign = [0x2D] then - int (literal_value body) else int (literal_value body))"
proof -
  from py_int_body [OF assms] obtain sign body c cs r where
    tok: "tok = sign @ body" and sign: "sign = [] \<or> sign = [0x2B] \<or> sign = [0x2D]" and
    body: "body = c # cs" "c \<noteq> 0x5F" "int_digits 0 0 False body = Some r" and
    n: "n = (if sign = [0x2D] then - int (fst r) else int (fst r))"
    by blast
  obtain v k where r: "r = (v, k)" by (cases r)
  from int_digits_value [OF body(3) [unfolded r]]
  have v: "v = literal_value body" and chars: "\<forall>c \<in> set body. c = 0x5F \<or> digit_val c \<noteq> None"
    by (simp_all add: literal_value_def)
  from chars body(1,2) have "digit_val c \<noteq> None" by simp
  with body(1) have digit: "\<exists>c \<in> set body. digit_val c \<noteq> None" by auto
  from n r v have "n = (if sign = [0x2D] then - int (literal_value body)
                        else int (literal_value body))"
    by simp
  with tok sign chars digit show ?thesis by blast
qed

lemma py_int_needs_digit:
  assumes "py_int lim tok = Inr n"
  shows "\<exists>c \<in> set tok. digit_val c \<noteq> None"
proof -
  from py_int_literal [OF assms] obtain sign body where
    "tok = sign @ body" and "\<exists>c \<in> set body. digit_val c \<noteq> None"
    by blast
  then show ?thesis by auto
qed

subsection \<open>The loops compute the reference rules\<close>

lemma takeWhile_no_sep:
  "\<not> contains s sep \<Longrightarrow> takeWhile (\<lambda>c. c \<noteq> sep) s = s"
  by (auto simp add: contains_def)

lemma parse_parts_spec:
  "parse_parts lim parts fills =
     Inr (fills @ concat (map (spec_segment lim) (filter (\<lambda>seg. seg \<noteq> []) (map strip parts))))"
proof (induction parts arbitrary: fills)
  case Nil
  show ?case by simp
next
  case (Cons part parts)
  show ?case
  proof (cases "strip part = []")
    case True
    then show ?thesis by (simp add: Cons.IH)
  next
    case False
    note nonempty = this
    show ?thesis
    proof (cases "split_ws (strip part)")
      case Nil
      with nonempty show ?thesis by (simp add: Cons.IH spec_segment_def)
    next
      case toks: (Cons tok toks)
      show ?thesis
      proof (cases "py_int lim tok")
        case (Inl e)
        then have "e = ValueError" by (rule py_int_raises)
        with Inl nonempty toks show ?thesis
          by (simp add: Cons.IH spec_segment_def index0_def)
      next
        case (Inr n)
        with nonempty toks show ?thesis
          by (simp add: Cons.IH spec_segment_def index0_def)
      qed
    qed
  qed
qed

lemma parse_lines_spec:
  "parse_lines lim lines fills = Inr (fills @ concat (map (spec_line lim) lines))"
proof (induction lines arbitrary: fills)
  case Nil
  show ?case by simp
next
  case (Cons line lines)
  show ?case
  proof (cases "strip line = [] \<or> startswith (strip line) 0x23")
    case True
    then show ?thesis
      by (auto simp add: Cons.IH spec_line_def startswith_def split: list.splits)
  next
    case False
    then have hd: "hd (strip line) \<noteq> 0x23" and ne: "strip line \<noteq> []"
      by (auto simp add: startswith_def split: list.splits)
    have cut: "(if contains (strip line) 0x23 then index0 (split_on (strip line) 0x23)
               else Inr (strip line)) = Inr (takeWhile (\<lambda>c. c \<noteq> 0x23) (strip line))"
      by (simp add: index0_split_on takeWhile_no_sep)
    from False hd ne show ?thesis
      unfolding parse_lines.simps Let_def cut
      by (simp add: parse_parts_spec Cons.IH spec_line_def)
  qed
qed

section \<open>Claims about the input parser\<close>

text \<open>
  C1. For every input text, \<^verbatim>\<open>parse_input\<close> returns exactly the sequence that the reference
  rules of the specification give, line by line from top to bottom: blank lines and lines
  starting with \<^verbatim>\<open>#\<close> give nothing, a line is cut at its first \<^verbatim>\<open>#\<close>, the rest is split at
  the commas, and every segment that is not empty once stripped gives the integer value of its
  first token, or nothing when that token is not an integer; the values come in the order met,
  duplicates kept, nothing sorted. In particular the text
  \<^verbatim>\<open># comment\n11316 1032, 222 # trailing\n\<close> gives 11316 and 222.
\<close>

theorem parse_input_follows_rules:
  "parse_input lim s = Inr (spec_parse lim s) \<and>
   parse_input 4300 (codes ''# comment\<newline>11316 1032, 222 # trailing\<newline>'') = Inr [11316, 222] \<and>
   parse_input 4300 (codes ''7, 3 9, 7'') = Inr [7, 3, 7]"
proof -
  have "parse_input lim s = Inr (spec_parse lim s)"
    by (simp add: parse_input_def spec_parse_def parse_lines_spec)
  moreover have
    "parse_input 4300 (codes ''# comment\<newline>11316 1032, 222 # trailing\<newline>'') = Inr [11316, 222]"
    by (simp add: parser_eval)
  moreover have "parse_input 4300 (codes ''7, 3 9, 7'') = Inr [7, 3, 7]"
    by (simp add: parser_eval)
  ultimately show ?thesis by blast
qed

theorem parse_input_follows_rules_witness:
  "parse_input 4300 (codes ''abc, 99, ,100'') = Inr (spec_parse 4300 (codes ''abc, 99, ,100'')) \<and>
   spec_parse 4300 (codes ''abc, 99, ,100'') = [99, 100]"
proof -
  have "spec_parse 4300 (codes ''abc, 99, ,100'') = [99, 100]"
    by (simp add: parser_eval)
  with parse_input_follows_rules [of 4300 "codes ''abc, 99, ,100''"] show ?thesis
    by blast
qed

text \<open>
  C2. \<^verbatim>\<open>parse_input\<close> is total: for every input text it returns a list of integers and never
  raises. On the empty text, on a text of blank and comment lines only, and on a text without
  any digit it returns the empty list.
\<close>

theorem parse_input_never_raises:
  "(\<exists>fills. parse_input lim s = Inr fills) \<and>
   parse_input lim [] = Inr [] \<and>
   ((\<forall>line \<in> set (splitlines s). strip line = [] \<or> startswith (strip line) 0x23) \<longrightarrow>
      parse_input lim s = Inr []) \<and>
   ((\<forall>c \<in> set s. digit_val c = None) \<longrightarrow> parse_input lim s = Inr [])"
proof (intro conjI impI)
  show "\<exists>fills. parse_input lim s = Inr fills"
    unfolding parse_input_def by (rule parse_lines_returns)
next
  show "parse_input lim [] = Inr []"
    by (simp add: parse_input_def splitlines_def)
next
  assume "\<forall>line \<in> set (splitlines s). strip line = [] \<or> startswith (strip line) 0x23"
  then show "parse_input lim s = Inr []"
    unfolding parse_input_def by (rule parse_lines_comments)
next
  assume nodigit: "\<forall>c \<in> set s. digit_val c = None"
  obtain fills where fills: "parse_input lim s = Inr fills"
    unfolding parse_input_def using parse_lines_returns by blast
  have "fills = []"
  proof (rule ccontr)
    assume "fills \<noteq> []"
    then obtain n where "n \<in> set fills" by (cases fills) auto
    from parse_input_elem [OF fills this] obtain tok where
      "set tok \<subseteq> set s" and "py_int lim tok = Inr n" by blast
    from py_int_needs_digit [OF this(2)] obtain c where
      "c \<in> set tok" and "digit_val c \<noteq> None" by blast
    with \<open>set tok \<subseteq> set s\<close> nodigit show False by auto
  qed
  with fills show "parse_input lim s = Inr []" by simp
qed

theorem parse_input_never_raises_witness:
  "parse_input 4300 (codes ''   \<newline># only comments\<newline>'') = Inr [] \<and>
   parse_input 4300 (codes ''abc, x y # z'') = Inr []"
proof -
  have comments: "\<forall>line \<in> set (splitlines (codes ''   \<newline># only comments\<newline>'')).
      strip line = [] \<or> startswith (strip line) 0x23"
    by (simp add: parser_eval)
  have nodigit: "\<forall>c \<in> set (codes ''abc, x y # z''). digit_val c = None"
    by (simp add: parser_eval)
  from parse_input_never_raises [of 4300 "codes ''   \<newline># only comments\<newline>''"] comments
  have "parse_input 4300 (codes ''   \<newline># only comments\<newline>'') = Inr []" by blast
  moreover from parse_input_never_raises [of 4300 "codes ''abc, x y # z''"] nodigit
  have "parse_input 4300 (codes ''abc, x y # z'') = Inr []" by blast
  ultimately show ?thesis by blast
qed

text \<open>
  C7, as the specification states it: every integer that \<^verbatim>\<open>parse_input\<close> returns is positive.
  The code does not check the sign: the text \<^verbatim>\<open>0, -5\<close> gives zero and minus five.
\<close>

theorem parse_input_zero_and_negative:
  "parse_input 4300 (codes ''0, -5'') = Inr [0, - 5]"
  by (simp add: parser_eval)

text \<open>
  C7, amended: every integer that \<^verbatim>\<open>parse_input\<close> returns is the value of an optionally signed
  decimal literal made of characters of the input text: an optional \<^verbatim>\<open>+\<close> or \<^verbatim>\<open>-\<close>, then decimal
  digits of any script and underscores, with at least one digit; the integer is the number that
  the digits write in base ten, negated after \<^verbatim>\<open>-\<close>. So it is zero exactly when every digit of
  the literal is a digit zero, negative exactly when the literal starts with \<^verbatim>\<open>-\<close> and has a
  digit that is not zero, and positive in every other case.
\<close>

theorem parse_input_sign:
  assumes "parse_input lim s = Inr fills" and "n \<in> set fills"
  shows "\<exists>tok sign body.
           set tok \<subseteq> set s \<and> py_int lim tok = Inr n \<and> tok = sign @ body \<and>
           (sign = [] \<or> sign = [0x2B] \<or> sign = [0x2D]) \<and>
           (\<forall>c \<in> set body. c = 0x5F \<or> digit_val c \<noteq> None) \<and>
           (\<exists>c \<in> set body. digit_val c \<noteq> None) \<and>
           n = (if sign = [0x2D] then - int (literal_value body) else int (literal_value body)) \<and>
           (n = 0 \<longleftrightarrow> (\<forall>c \<in> set body. digit_val c = None \<or> digit_val c = Some 0)) \<and>
           (n < 0 \<longleftrightarrow> sign = [0x2D] \<and> (\<exists>c \<in> set body. \<exists>d. digit_val c = Some d \<and> 0 < d)) \<and>
           (0 < n \<longleftrightarrow> sign \<noteq> [0x2D] \<and> (\<exists>c \<in> set body. \<exists>d. digit_val c = Some d \<and> 0 < d))"
proof -
  from parse_input_elem [OF assms] obtain tok where
    tok: "set tok \<subseteq> set s" and val: "py_int lim tok = Inr n" by blast
  from py_int_literal [OF val] obtain sign body where
    parts: "tok = sign @ body" "sign = [] \<or> sign = [0x2B] \<or> sign = [0x2D]"
      "\<forall>c \<in> set body. c = 0x5F \<or> digit_val c \<noteq> None" "\<exists>c \<in> set body. digit_val c \<noteq> None" and
    n: "n = (if sign = [0x2D] then - int (literal_value body) else int (literal_value body))"
    by blast
  let ?zeros = "\<forall>c \<in> set body. digit_val c = None \<or> digit_val c = Some 0"
  let ?other = "\<exists>c \<in> set body. \<exists>d. digit_val c = Some d \<and> 0 < d"
  have other: "?other \<longleftrightarrow> \<not> ?zeros"
    by (metis not_None_eq not_gr_zero option.inject)
  have zero: "literal_value body = 0 \<longleftrightarrow> ?zeros"
    by (rule literal_value_zero)
  from n zero have "n = 0 \<longleftrightarrow> ?zeros" by auto
  moreover from n zero other have "n < 0 \<longleftrightarrow> sign = [0x2D] \<and> ?other" by auto
  moreover from n zero other have "0 < n \<longleftrightarrow> sign \<noteq> [0x2D] \<and> ?other" by auto
  ultimately show ?thesis using tok val parts n by blast
qed

theorem parse_input_sign_witness:
  "parse_input 4300 (codes ''10'') = Inr [10] \<and>
   parse_input 4300 [0x660, 0x2C, 0x20, 0xFF11, 0xFF12] = Inr [0, 12] \<and>
   (\<exists>tok sign body.
      set tok \<subseteq> set [0x660, 0x2C, 0x20, 0xFF11, 0xFF12] \<and> py_int 4300 tok = Inr 12 \<and>
      tok = sign @ body \<and> (sign = [] \<or> sign = [0x2B] \<or> sign = [0x2D]) \<and>
      (\<forall>c \<in> set body. c = 0x5F \<or> digit_val c \<noteq> None) \<and>
      (\<exists>c \<in> set body. digit_val c \<noteq> None) \<and>
      12 = (if sign = [0x2D] then - int (literal_value body) else int (literal_value body)) \<and>
      ((12::int) = 0 \<longleftrightarrow> (\<forall>c \<in> set body. digit_val c = None \<or> digit_val c = Some 0)) \<and>
      ((12::int) < 0 \<longleftrightarrow>
         sign = [0x2D] \<and> (\<exists>c \<in> set body. \<exists>d. digit_val c = Some d \<and> 0 < d)) \<and>
      ((0::int) < 12 \<longleftrightarrow>
         sign \<noteq> [0x2D] \<and> (\<exists>c \<in> set body. \<exists>d. digit_val c = Some d \<and> 0 < d)))"
proof -
  have ten: "parse_input 4300 (codes ''10'') = Inr [10]"
    by (simp add: parser_eval)
  have run: "parse_input 4300 [0x660, 0x2C, 0x20, 0xFF11, 0xFF12] = Inr [0, 12]"
    by (simp add: parser_eval)
  have mem: "(12::int) \<in> set [0, 12]" by simp
  note parse_input_sign [OF run mem]
  with ten run show ?thesis by (intro conjI)
qed

section \<open>Properties of the metadata lookup, of the loop and of the script\<close>

subsection \<open>The metadata lookup\<close>

lemma and_then_Inr:
  "and_then m f = Inr y \<longleftrightarrow> (\<exists>x. m = Inr x \<and> f x = Inr y)"
  by (cases m) (simp_all add: and_then_def)














subsection \<open>One pass of the loop\<close>




lemma get_fill_metadata_events:
  "set (fst (get_fill_metadata a n)) \<subseteq>
     {QueryFills n} \<union> {Print (MetadataWarning n e) | e. True}"
  by (auto simp add: get_fill_metadata_def split: sum.splits py_exn.splits)




subsection \<open>The loop\<close>





subsection \<open>The orchestrator and the script\<close>

lemma process_fill_screenshot_events:
  assumes "SaveScreenshot p \<in> set (fst (process_fill repr io n))"
  shows "\<exists>looked meta. get_fill_metadata (api io) n = (looked, Inr meta) \<and>
           p = filename repr n meta"
proof (cases "get_fill_metadata (api io) n")
  case (Pair looked r)
  have quiet: "SaveScreenshot p \<notin> set looked"
    using get_fill_metadata_events [of "api io" n] Pair by auto
  show ?thesis
  proof (cases r)
    case (Inl e)
    with Pair assms quiet show ?thesis
      by (simp add: process_fill_def then_do_def say_def)
  next
    case (Inr meta)
    have "p = filename repr n meta"
    proof (cases meta)
      case None
      with Pair Inr assms quiet show ?thesis
        by (auto simp add: process_fill_def then_do_def say_def call_def skip_def
            split: option.splits)
    next
      case (Some m)
      with Pair Inr assms quiet show ?thesis
        by (auto simp add: process_fill_def try_except_def then_do_def say_def call_def skip_def
            split: option.splits py_exn.splits)
    qed
    with Pair Inr show ?thesis by simp
  qed
qed


lemma then_do_events:
  "ev \<in> set (fst (then_do a b)) \<Longrightarrow> ev \<in> set (fst a) \<or> ev \<in> set (fst b)"
  by (cases a) (auto simp add: then_do_def split: option.splits)

lemma try_except_events:
  "ev \<in> set (fst (try_except body handler)) \<Longrightarrow>
   ev \<in> set (fst body) \<or> (\<exists>e. ev \<in> set (fst (handler e)))"
  by (cases body) (auto simp add: try_except_def split: option.splits py_exn.splits
      dest!: then_do_events)

lemma process_fill_never_quits: "Quit \<notin> set (fst (process_fill repr io n))"
proof (cases "get_fill_metadata (api io) n")
  case (Pair looked r)
  have quiet: "Quit \<notin> set looked"
    using get_fill_metadata_events [of "api io" n] Pair by auto
  show ?thesis
  proof (cases r)
    case (Inl e)
    with Pair quiet show ?thesis
      by (simp add: process_fill_def then_do_def say_def)
  next
    case (Inr meta)
    with Pair quiet show ?thesis
      by (cases meta)
        (auto simp add: process_fill_def say_def call_def skip_def
          dest!: then_do_events try_except_events)
  qed
qed

lemma for_fills_never_quits: "Quit \<notin> set (fst (for_fills repr ios i fills))"
proof (induction fills arbitrary: i)
  case Nil
  show ?case by (simp add: skip_def)
next
  case (Cons n fills)
  show ?case
    using process_fill_never_quits [of repr "ios i" n] Cons.IH [of "Suc i"]
    by (auto dest!: then_do_events)
qed

text \<open>
  The events of lines 87 to 170: those of the \<^verbatim>\<open>try\<close> with its \<^verbatim>\<open>except Exception\<close>, none of
  them a call of \<^verbatim>\<open>driver.quit()\<close>, then those of the \<^verbatim>\<open>finally\<close> block.
\<close>

lemma session_finally:
  "\<exists>body. Quit \<notin> set body \<and>
     fst (session repr w fills) =
       (case closing_print_raises w of
          None \<Rightarrow> body @ [Print ClosingBrowser, Quit]
        | Some e \<Rightarrow> body @ [Print ClosingBrowser]) \<and>
     (\<forall>e. closing_print_raises w = Some e \<longrightarrow> snd (session repr w fills) = Some e)"
proof -
  let ?body = "try_except
          (in_order
             [call (Get base_url) (landing_raises w),
              say (LoginBanner 1), say (LoginBanner 2), say (LoginBanner 3), say (LoginBanner 4),
              say (LoginBanner 5),
              call (Input ''Press Enter to continue... '') (input_raises w),
              for_fills repr (fill_ios w) 0 fills])
          (\<lambda>e. say (ErrorOccurred e))"
  have quiet: "Quit \<notin> set (fst ?body)"
    using for_fills_never_quits [of repr "fill_ios w" 0 fills]
    by (auto simp add: say_def call_def skip_def dest!: try_except_events then_do_events)
  have fin: "in_order [call (Print ClosingBrowser) (closing_print_raises w),
                       call Quit (quit_raises w)] =
          (case closing_print_raises w of
             None \<Rightarrow> ([Print ClosingBrowser, Quit], quit_raises w)
           | Some e \<Rightarrow> ([Print ClosingBrowser], Some e))"
    by (cases "closing_print_raises w"; cases "quit_raises w")
      (simp_all add: then_do_def call_def skip_def)
  have "fst (session repr w fills) =
       (case closing_print_raises w of
          None \<Rightarrow> fst ?body @ [Print ClosingBrowser, Quit]
        | Some e \<Rightarrow> fst ?body @ [Print ClosingBrowser])"
    unfolding session_def fin
    by (cases "closing_print_raises w"; cases "quit_raises w") (simp_all add: try_finally_def)
  moreover have "\<forall>e. closing_print_raises w = Some e \<longrightarrow> snd (session repr w fills) = Some e"
    unfolding session_def fin
    by (simp add: try_finally_def)
  ultimately show ?thesis using quiet by blast
qed

lemma download_plots_started:
  assumes "dir_exists w \<or> makedirs_raises w = None"
    and "install_raises w = None" and "launch_raises w = None"
  shows "download_plots repr w fills =
           then_do
             ((if dir_exists w then [PathExists output_dir]
               else [PathExists output_dir, MakeDirs output_dir,
                     Print (CreatedDirectory output_dir)]) @
              [Print (UsingProfile user_data_dir), Print InitializingChrome,
               InstallDriver, LaunchChrome chrome_arguments], None)
             (session repr w fills)"
  using assms
  by (cases "session repr w fills")
    (auto simp add: download_plots_def or_return_def then_do_def say_def call_def skip_def)

lemma download_plots_without_browser:
  assumes "LaunchChrome args \<in> set (fst (download_plots repr w fills))"
  shows "(dir_exists w \<or> makedirs_raises w = None) \<and> install_raises w = None"
proof -
  have "LaunchChrome args \<notin> set (fst (download_plots repr w fills))"
    if "\<not> dir_exists w" and "makedirs_raises w = Some e" for e
    using that
    by (simp add: download_plots_def or_return_def then_do_def say_def call_def skip_def)
  moreover have "LaunchChrome args \<notin> set (fst (download_plots repr w fills))"
    if "install_raises w = Some e" for e
    using that
    by (cases e; cases "dir_exists w"; cases "makedirs_raises w")
      (simp_all add: download_plots_def or_return_def then_do_def say_def call_def skip_def)
  ultimately show ?thesis using assms by (cases "makedirs_raises w"; cases "install_raises w") auto
qed

lemma parse_text_returns: "\<exists>fills. parse_text lim content = Inr fills"
proof -
  obtain fills where "parse_input lim content = Inr fills"
    unfolding parse_input_def using parse_lines_returns by blast
  then show ?thesis by (simp add: parse_text_def)
qed

lemma fills_from_arguments_file:
  assumes "argv env = prog # first_arg # others" and "isfile env first_arg"
  shows "fills_from_arguments lim env =
           (case read_file env first_arg of
              Inr content \<Rightarrow>
                ([IsFile first_arg, Print (ReadingFrom first_arg), ReadFile first_arg],
                 parse_text lim content)
            | Inl (Exception c) \<Rightarrow>
                ([IsFile first_arg, Print (ReadingFrom first_arg), ReadFile first_arg,
                  Print (ErrorReadingFile (Exception c))], Inl (SystemExit 1))
            | Inl e \<Rightarrow>
                ([IsFile first_arg, Print (ReadingFrom first_arg), ReadFile first_arg], Inl e))"
proof (cases "read_file env first_arg")
  case (Inl e)
  with assms show ?thesis
    by (cases e) (simp_all add: fills_from_arguments_def read_and_parse_def and_then_def)
next
  case (Inr content)
  obtain fills where "parse_text lim content = Inr fills"
    using parse_text_returns by blast
  with Inr assms show ?thesis
    by (simp add: fills_from_arguments_def read_and_parse_def and_then_def)
qed

lemma fills_from_arguments_text:
  assumes "argv env = prog # first_arg # others" and "\<not> isfile env first_arg"
  shows "fills_from_arguments lim env =
           ([IsFile first_arg], parse_text lim (join [0x20] (first_arg # others)))"
  using assms by (simp add: fills_from_arguments_def)

lemma join_one_character:
  "join [c] (x # xs) = x @ concat (map (\<lambda>y. c # y) xs)"
  by (induction xs arbitrary: x) simp_all

section \<open>Claims about the metadata lookup, the orchestrator and the script\<close>




text \<open>
  C4. The path of the screenshot is \<^verbatim>\<open>fills/fill_<id>.png\<close> when the lookup gave no metadata and
  \<^verbatim>\<open>fills/fill_<id>_<system>_<bunches>b_<year>.png\<close> when it gave some; two records that agree
  on system, bunches and year give the same path whatever their fill type; and a pass of the
  loop asks for a screenshot at no other path than the one computed from the identifier and
  the metadata it looked up. The path is a function of these values, so a second run with the
  same values names the same file.
\<close>

theorem screenshot_path:
  "filename repr n None = ''fills/fill_'' @ py_str_int n @ ''.png'' \<and>
   filename repr n (Some m) =
     ''fills/fill_'' @ py_str_int n @ ''_'' @ system m @ ''_'' @ py_format repr (bunches m) @
     ''b_'' @ py_format repr (year m) @ ''.png'' \<and>
   (system m = system m' \<and> bunches m = bunches m' \<and> year m = year m' \<longrightarrow>
      filename repr n (Some m) = filename repr n (Some m')) \<and>
   (SaveScreenshot p \<in> set (fst (process_fill repr io n)) \<longrightarrow>
      (\<exists>looked meta. get_fill_metadata (api io) n = (looked, Inr meta) \<and>
         p = filename repr n meta))"
proof (intro conjI impI)
  show "filename repr n None = ''fills/fill_'' @ py_str_int n @ ''.png''"
    by (simp add: filename_def filename_suffix_def output_dir_def)
  show "filename repr n (Some m) =
     ''fills/fill_'' @ py_str_int n @ ''_'' @ system m @ ''_'' @ py_format repr (bunches m) @
     ''b_'' @ py_format repr (year m) @ ''.png''"
    by (simp add: filename_def filename_suffix_def output_dir_def)
  show "filename repr n (Some m) = filename repr n (Some m')"
    if "system m = system m' \<and> bunches m = bunches m' \<and> year m = year m'"
    using that by (simp add: filename_def filename_suffix_def)
  show "\<exists>looked meta. get_fill_metadata (api io) n = (looked, Inr meta) \<and>
         p = filename repr n meta"
    if "SaveScreenshot p \<in> set (fst (process_fill repr io n))"
    using that by (rule process_fill_screenshot_events)
qed

theorem screenshot_path_witness:
  "filename plain_repr 11316
     (Some \<lparr>bunches = JInt 2400, system = ''pp'', fill_type = JStr ''PROTONS'',
            year = JStr ''2024''\<rparr>) = ''fills/fill_11316_pp_2400b_2024.png'' \<and>
   filename plain_repr 11316
     (Some \<lparr>bunches = JInt 2400, system = ''pp'', fill_type = JStr ''PROTONS'',
            year = JStr ''2024''\<rparr>) =
   filename plain_repr 11316
     (Some \<lparr>bunches = JInt 2400, system = ''pp'', fill_type = JNull, year = JStr ''2024''\<rparr>) \<and>
   SaveScreenshot ''fills/fill_11316_pp_2400b_2024.png'' \<in>
     set (fst (process_fill plain_repr calm 11316)) \<and>
   (\<exists>looked meta. get_fill_metadata (api calm) 11316 = (looked, Inr meta) \<and>
      ''fills/fill_11316_pp_2400b_2024.png'' = filename plain_repr 11316 meta)"
proof -
  let ?m = "\<lparr>bunches = JInt 2400, system = ''pp'', fill_type = JStr ''PROTONS'',
             year = JStr ''2024''\<rparr>"
  let ?m' = "\<lparr>bunches = JInt 2400, system = ''pp'', fill_type = JNull, year = JStr ''2024''\<rparr>"
  have name: "filename plain_repr 11316 (Some ?m) = ''fills/fill_11316_pp_2400b_2024.png''"
    by (simp add: filename_def filename_suffix_def output_dir_def py_str_int_def)
  have meta: "get_fill_metadata (api calm) 11316 = ([QueryFills 11316], Inr (Some ?m))"
    by code_simp
  have calm: "get_raises calm = None" "sleep_raises calm = None" "script_raises calm = None"
    "screenshot_raises calm = None"
    by (simp_all add: calm_def)
  have shot: "SaveScreenshot ''fills/fill_11316_pp_2400b_2024.png'' \<in>
      set (fst (process_fill plain_repr calm 11316))"
    by (simp add: process_fill_def meta calm name then_do_def say_def call_def skip_def
        try_except_def)
  have same: "system ?m = system ?m' \<and> bunches ?m = bunches ?m' \<and> year ?m = year ?m'"
    by simp
  note path = screenshot_path
    [of plain_repr 11316 ?m ?m' "''fills/fill_11316_pp_2400b_2024.png''" calm]
  from path have "system ?m = system ?m' \<and> bunches ?m = bunches ?m' \<and> year ?m = year ?m' \<longrightarrow>
      filename plain_repr 11316 (Some ?m) = filename plain_repr 11316 (Some ?m')"
    by (elim conjE)
  from this same have agree:
    "filename plain_repr 11316 (Some ?m) = filename plain_repr 11316 (Some ?m')"
    by (rule mp)
  from path have "SaveScreenshot ''fills/fill_11316_pp_2400b_2024.png'' \<in>
      set (fst (process_fill plain_repr calm 11316)) \<longrightarrow>
      (\<exists>looked meta. get_fill_metadata (api calm) 11316 = (looked, Inr meta) \<and>
         ''fills/fill_11316_pp_2400b_2024.png'' = filename plain_repr 11316 meta)"
    by (elim conjE)
  from this shot have looked:
    "\<exists>looked meta. get_fill_metadata (api calm) 11316 = (looked, Inr meta) \<and>
       ''fills/fill_11316_pp_2400b_2024.png'' = filename plain_repr 11316 meta"
    by (rule mp)
  from name agree shot looked show ?thesis
    by (intro conjI)
qed



text \<open>
  C6. The \<^verbatim>\<open>finally\<close> block prints \<^verbatim>\<open>Closing browser...\<close> and then calls \<^verbatim>\<open>driver.quit()\<close>.
  Whenever the orchestrator asked for a browser and got one: if that \<^verbatim>\<open>print\<close> returns, the
  last thing the orchestrator does is to call \<^verbatim>\<open>driver.quit()\<close>, whatever the landing page, the
  prompt, the passes of the loop and \<^verbatim>\<open>quit\<close> itself do, whether they return, raise an
  \<^verbatim>\<open>Exception\<close> or are interrupted; if that \<^verbatim>\<open>print\<close> raises, \<^verbatim>\<open>driver.quit()\<close> is not called at
  all and the exception of the \<^verbatim>\<open>print\<close> leaves the orchestrator, so that the browser session
  is not terminated on this exit path.
\<close>

theorem quit_follows_closing_print:
  assumes "LaunchChrome args \<in> set (fst (download_plots repr w fills))"
    and "launch_raises w = None"
  shows "(closing_print_raises w = None \<longrightarrow>
            (\<exists>before. fst (download_plots repr w fills) = before @ [Quit])) \<and>
         (closing_print_raises w = Some e \<longrightarrow>
            Quit \<notin> set (fst (download_plots repr w fills)) \<and>
            (\<exists>before. fst (download_plots repr w fills) = before @ [Print ClosingBrowser]) \<and>
            snd (download_plots repr w fills) = Some e)"
proof -
  from download_plots_without_browser [OF assms(1)]
  have ready: "dir_exists w \<or> makedirs_raises w = None" and driver: "install_raises w = None"
    by simp_all
  note started = download_plots_started [OF ready driver assms(2), of repr fills]
  from session_finally [of repr w fills] obtain body where
    quiet: "Quit \<notin> set body" and
    events: "fst (session repr w fills) =
       (case closing_print_raises w of
          None \<Rightarrow> body @ [Print ClosingBrowser, Quit]
        | Some e \<Rightarrow> body @ [Print ClosingBrowser])" and
    raised: "\<forall>e. closing_print_raises w = Some e \<longrightarrow> snd (session repr w fills) = Some e"
    by blast
  show ?thesis
  proof (intro conjI impI)
    assume "closing_print_raises w = None"
    with events have "fst (session repr w fills) = (body @ [Print ClosingBrowser]) @ [Quit]"
      by simp
    with started show "\<exists>before. fst (download_plots repr w fills) = before @ [Quit]"
      by (simp add: then_do_def)
  next
    assume "closing_print_raises w = Some e"
    with events quiet started show "Quit \<notin> set (fst (download_plots repr w fills))"
      by (auto simp add: then_do_def output_dir_def)
  next
    assume "closing_print_raises w = Some e"
    with events started
    show "\<exists>before. fst (download_plots repr w fills) = before @ [Print ClosingBrowser]"
      by (simp add: then_do_def)
  next
    assume "closing_print_raises w = Some e"
    with raised started show "snd (download_plots repr w fills) = Some e"
      by (simp add: then_do_def)
  qed
qed

theorem quit_follows_closing_print_witness:
  "LaunchChrome chrome_arguments \<in> set (fst (download_plots plain_repr muted_world [11316])) \<and>
   launch_raises muted_world = None \<and>
   closing_print_raises muted_world = Some (Exception ''BrokenPipeError'') \<and>
   Quit \<notin> set (fst (download_plots plain_repr muted_world [11316])) \<and>
   snd (download_plots plain_repr muted_world [11316]) = Some (Exception ''BrokenPipeError'') \<and>
   LaunchChrome chrome_arguments \<in>
     set (fst (download_plots plain_repr interrupted_world [11316, 11317])) \<and>
   closing_print_raises interrupted_world = None \<and>
   snd (download_plots plain_repr interrupted_world [11316, 11317]) = Some KeyboardInterrupt \<and>
   (\<exists>before. fst (download_plots plain_repr interrupted_world [11316, 11317]) =
      before @ [Quit])"
proof -
  have muted: "dir_exists muted_world \<or> makedirs_raises muted_world = None"
    "install_raises muted_world = None" "launch_raises muted_world = None"
    "closing_print_raises muted_world = Some (Exception ''BrokenPipeError'')"
    by (simp_all add: muted_world_def calm_world_def)
  from download_plots_started [OF muted(1,2,3), of plain_repr "[11316]"]
  have launched: "LaunchChrome chrome_arguments \<in>
      set (fst (download_plots plain_repr muted_world [11316]))"
    by (simp add: then_do_def)
  note open_path = quit_follows_closing_print
    [OF launched muted(3), where e = "Exception ''BrokenPipeError''",
      THEN conjunct2, THEN mp, OF muted(4)]
  have run: "download_plots plain_repr interrupted_world [11316, 11317] =
      ([PathExists output_dir, Print (UsingProfile user_data_dir), Print InitializingChrome,
        InstallDriver, LaunchChrome chrome_arguments, Get base_url,
        Print (LoginBanner 1), Print (LoginBanner 2), Print (LoginBanner 3),
        Print (LoginBanner 4), Print (LoginBanner 5), Input ''Press Enter to continue... '',
        Print ClosingBrowser, Quit], Some KeyboardInterrupt)"
    by (simp add: download_plots_def session_def or_return_def try_finally_def try_except_def
        then_do_def say_def call_def skip_def interrupted_world_def calm_world_def)
  then have launched': "LaunchChrome chrome_arguments \<in>
      set (fst (download_plots plain_repr interrupted_world [11316, 11317]))"
    by simp
  have ok: "launch_raises interrupted_world = None"
    "closing_print_raises interrupted_world = None"
    by (simp_all add: interrupted_world_def calm_world_def)
  note closed_path = quit_follows_closing_print
    [OF launched' ok(1), where e = "Exception ''BrokenPipeError''",
      THEN conjunct1, THEN mp, OF ok(2)]
  from open_path have "Quit \<notin> set (fst (download_plots plain_repr muted_world [11316]))"
    "snd (download_plots plain_repr muted_world [11316]) = Some (Exception ''BrokenPipeError'')"
    by simp_all
  with launched muted(3,4) launched' ok(2) run closed_path show ?thesis
    by simp
qed

text \<open>
  C8, as the specification states it: the year of a metadata record is a string of four
  characters or the string \<^verbatim>\<open>UNKNOWN\<close>. The code takes \<^verbatim>\<open>start_time[:4]\<close> whatever the length of
  the start time: a start time of three characters gives a year of three characters.
\<close>

theorem year_of_short_start_time:
  "fetch_metadata (ApiJson (JObj [(''data'', JArr [JObj [(''attributes'',
       JObj [(''start_time'', JStr ''202'')])]])])) =
   Inr (Some \<lparr>bunches = JInt 0, system = ''pp'', fill_type = JStr ''UNKNOWN'', year = JStr ''202''\<rparr>)"
  by code_simp

text \<open>
  C8, amended: whenever the lookup gives a metadata record, the answer has a first entry, and
  the year of the record is the string \<^verbatim>\<open>UNKNOWN\<close> when the start time of that entry is absent,
  null, empty or false in any other way, and otherwise the first four items of the start time:
  the first four characters of a string, or all of them when it has fewer than four, and the
  first four elements when the start time is a list.
\<close>

theorem year_is_start_of_start_time:
  assumes "fetch_metadata outcome = Inr (Some m)"
  shows "\<exists>resp_json attributes start_time.
           outcome = ApiJson resp_json \<and>
           first_attributes resp_json = Inr (Some attributes) \<and>
           py_get attributes ''start_time'' (JStr []) = Inr start_time \<and>
           (\<not> truthy start_time \<and> year m = JStr ''UNKNOWN'' \<or>
            (\<exists>s. start_time = JStr s \<and> s \<noteq> [] \<and> year m = JStr (take 4 s)) \<or>
            (\<exists>xs. start_time = JArr xs \<and> xs \<noteq> [] \<and> year m = JArr (take 4 xs)))"
proof -
  from assms obtain resp_json where outcome: "outcome = ApiJson resp_json"
    by (cases outcome) (simp_all add: fetch_metadata_def)
  with assms obtain attributes where
    attrs: "first_attributes resp_json = Inr (Some attributes)" and
    built: "metadata_of attributes = Inr m"
    by (auto simp add: fetch_metadata_def and_then_Inr split: option.splits)
  from built obtain start_time year_value where
    st: "py_get attributes ''start_time'' (JStr []) = Inr start_time" and
    yv: "(if truthy start_time then py_slice4 start_time else Inr (JStr ''UNKNOWN'')) = Inr year_value" and
    ym: "year m = year_value"
    by (auto simp add: metadata_of_def and_then_Inr)
  have "\<not> truthy start_time \<and> year m = JStr ''UNKNOWN'' \<or>
        (\<exists>s. start_time = JStr s \<and> s \<noteq> [] \<and> year m = JStr (take 4 s)) \<or>
        (\<exists>xs. start_time = JArr xs \<and> xs \<noteq> [] \<and> year m = JArr (take 4 xs))"
    using yv ym by (cases start_time) (auto split: if_splits)
  with outcome attrs st show ?thesis by blast
qed

theorem year_is_start_of_start_time_witness:
  "\<exists>resp_json attributes start_time.
     ApiJson (JObj [(''data'', JArr [JObj [(''attributes'',
        JObj [(''start_time'', JStr ''2024-05-01 10:00:00'')])]])]) = ApiJson resp_json \<and>
     first_attributes resp_json = Inr (Some attributes) \<and>
     py_get attributes ''start_time'' (JStr []) = Inr start_time \<and>
     (\<not> truthy start_time \<and>
      year \<lparr>bunches = JInt 0, system = ''pp'', fill_type = JStr ''UNKNOWN'', year = JStr ''2024''\<rparr> =
        JStr ''UNKNOWN'' \<or>
      (\<exists>s. start_time = JStr s \<and> s \<noteq> [] \<and>
         year \<lparr>bunches = JInt 0, system = ''pp'', fill_type = JStr ''UNKNOWN'', year = JStr ''2024''\<rparr> =
           JStr (take 4 s)) \<or>
      (\<exists>xs. start_time = JArr xs \<and> xs \<noteq> [] \<and>
         year \<lparr>bunches = JInt 0, system = ''pp'', fill_type = JStr ''UNKNOWN'', year = JStr ''2024''\<rparr> =
           JArr (take 4 xs)))"
proof -
  have run: "fetch_metadata (ApiJson (JObj [(''data'', JArr [JObj [(''attributes'',
        JObj [(''start_time'', JStr ''2024-05-01 10:00:00'')])]])])) =
     Inr (Some \<lparr>bunches = JInt 0, system = ''pp'', fill_type = JStr ''UNKNOWN'', year = JStr ''2024''\<rparr>)"
    by code_simp
  from year_is_start_of_start_time [OF run] show ?thesis .
qed

text \<open>
  C9. A file named at the prompt that exists and cannot be read: the exception of \<^verbatim>\<open>open\<close> is an
  \<^verbatim>\<open>Exception\<close>, the \<^verbatim>\<open>try\<close> around the prompt catches \<^verbatim>\<open>KeyboardInterrupt\<close> only, and the
  program ends with the traceback of that exception, without a message of its own and without
  status 1. The same file named as the first argument is reported and the program exits with
  status 1.
\<close>

theorem unreadable_file_at_prompt:
  "(length (argv env) \<le> 1 \<and> typed env = Inr user_input \<and> strip user_input \<noteq> [] \<and>
    isfile env (strip user_input) \<and> read_file env (strip user_input) = Inl (Exception c) \<longrightarrow>
    main lim repr env =
      ([Print (PromptHelp 1), Print (PromptHelp 2), Input ''> '', IsFile (strip user_input),
        Print (ReadingFrom (strip user_input)), ReadFile (strip user_input)],
       Some (Exception c)) \<and>
    ending_of (main lim repr env) = Traceback (Exception c)) \<and>
   (1 < length (argv env) \<and> isfile env (argv env ! 1) \<and>
    read_file env (argv env ! 1) = Inl (Exception c) \<longrightarrow>
    main lim repr env =
      ([IsFile (argv env ! 1), Print (ReadingFrom (argv env ! 1)), ReadFile (argv env ! 1),
        Print (ErrorReadingFile (Exception c))], Some (SystemExit 1)) \<and>
    ending_of (main lim repr env) = Exited 1)"
  by (simp add: main_def fills_from_prompt_def fills_from_arguments_def read_and_parse_def
      and_then_def ending_of_def Let_def)

theorem unreadable_file_at_prompt_witness:
  "ending_of (main 4300 plain_repr locked_file) = Traceback (Exception ''PermissionError'') \<and>
   ending_of (main 4300 plain_repr
     (locked_file\<lparr>argv := [codes ''download_plots.py'', codes ''fills.txt'']\<rparr>)) = Exited 1"
proof -
  have stripped: "strip (codes ''fills.txt'') = codes ''fills.txt''"
    by (simp add: parser_eval)
  have prompt: "length (argv locked_file) \<le> 1 \<and> typed locked_file = Inr (codes ''fills.txt'') \<and>
    strip (codes ''fills.txt'') \<noteq> [] \<and> isfile locked_file (strip (codes ''fills.txt'')) \<and>
    read_file locked_file (strip (codes ''fills.txt'')) = Inl (Exception ''PermissionError'')"
    unfolding stripped by (simp add: locked_file_def codes_def)
  let ?args = "locked_file\<lparr>argv := [codes ''download_plots.py'', codes ''fills.txt'']\<rparr>"
  have args: "1 < length (argv ?args) \<and> isfile ?args (argv ?args ! 1) \<and>
    read_file ?args (argv ?args ! 1) = Inl (Exception ''PermissionError'')"
    by (simp add: locked_file_def)
  from unreadable_file_at_prompt
    [of locked_file "codes ''fills.txt''" "''PermissionError''" 4300 plain_repr,
      THEN conjunct1, THEN mp, OF prompt]
  have "ending_of (main 4300 plain_repr locked_file) = Traceback (Exception ''PermissionError'')"
    by (rule conjunct2)
  moreover
  from unreadable_file_at_prompt
    [of ?args "[]" "''PermissionError''" 4300 plain_repr, THEN conjunct2, THEN mp, OF args]
  have "ending_of (main 4300 plain_repr ?args) = Exited 1"
    by (rule conjunct2)
  ultimately show ?thesis by (intro conjI)
qed

text \<open>
  C10. With at least one argument on the command line, \<^verbatim>\<open>os.path.isfile\<close> is asked about the
  first argument only: the run is the same for any other file system that answers the same
  about the first argument. If the first argument names a file, that file is read and parsed and
  the run is the same as with this argument alone; if it does not, the text that is parsed is
  the first argument followed by every later argument, each after one space, whether or not a
  later argument names a file: the arguments \<^verbatim>\<open>1,\<close> and \<^verbatim>\<open>2\<close> give the fills 1 and 2.
\<close>

theorem only_first_argument_is_tested:
  assumes "argv env = prog # first_arg # others"
  shows "(isfile' first_arg = isfile env first_arg \<longrightarrow>
            main lim repr (env\<lparr>isfile := isfile'\<rparr>) = main lim repr env) \<and>
         (isfile env first_arg \<longrightarrow>
            fills_from_arguments lim env =
              (case read_file env first_arg of
                 Inr content \<Rightarrow>
                   ([IsFile first_arg, Print (ReadingFrom first_arg), ReadFile first_arg],
                    parse_text lim content)
               | Inl (Exception c) \<Rightarrow>
                   ([IsFile first_arg, Print (ReadingFrom first_arg), ReadFile first_arg,
                     Print (ErrorReadingFile (Exception c))], Inl (SystemExit 1))
               | Inl e \<Rightarrow>
                   ([IsFile first_arg, Print (ReadingFrom first_arg), ReadFile first_arg],
                    Inl e)) \<and>
            main lim repr env = main lim repr (env\<lparr>argv := [prog, first_arg]\<rparr>)) \<and>
         (\<not> isfile env first_arg \<longrightarrow>
            fills_from_arguments lim env =
              ([IsFile first_arg],
               parse_text lim (first_arg @ concat (map (\<lambda>arg. 0x20 # arg) others))))"
proof (intro conjI impI)
  assume "isfile' first_arg = isfile env first_arg"
  with assms have "fills_from_arguments lim (env\<lparr>isfile := isfile'\<rparr>) =
      fills_from_arguments lim env"
    by (simp add: fills_from_arguments_def read_and_parse_def)
  with assms show "main lim repr (env\<lparr>isfile := isfile'\<rparr>) = main lim repr env"
    by (simp add: main_def split: prod.splits sum.splits)
next
  assume named: "isfile env first_arg"
  from assms named show "fills_from_arguments lim env =
      (case read_file env first_arg of
         Inr content \<Rightarrow>
           ([IsFile first_arg, Print (ReadingFrom first_arg), ReadFile first_arg],
            parse_text lim content)
       | Inl (Exception c) \<Rightarrow>
           ([IsFile first_arg, Print (ReadingFrom first_arg), ReadFile first_arg,
             Print (ErrorReadingFile (Exception c))], Inl (SystemExit 1))
       | Inl e \<Rightarrow>
           ([IsFile first_arg, Print (ReadingFrom first_arg), ReadFile first_arg], Inl e))"
    by (rule fills_from_arguments_file)
  from assms named have "fills_from_arguments lim (env\<lparr>argv := [prog, first_arg]\<rparr>) =
      fills_from_arguments lim env"
    by (simp add: fills_from_arguments_def read_and_parse_def)
  with assms show "main lim repr env = main lim repr (env\<lparr>argv := [prog, first_arg]\<rparr>)"
    by (simp add: main_def split: prod.splits sum.splits)
next
  assume "\<not> isfile env first_arg"
  with assms have "fills_from_arguments lim env =
      ([IsFile first_arg], parse_text lim (join [0x20] (first_arg # others)))"
    by (rule fills_from_arguments_text)
  then show "fills_from_arguments lim env =
      ([IsFile first_arg],
       parse_text lim (first_arg @ concat (map (\<lambda>arg. 0x20 # arg) others)))"
    by (simp add: join_one_character)
qed

theorem only_first_argument_is_tested_witness:
  "main 4300 plain_repr (two_files\<lparr>isfile := (\<lambda>p. p = codes ''fills.txt'')\<rparr>) =
     main 4300 plain_repr two_files \<and>
   fills_from_arguments 4300 two_files =
     ([IsFile (codes ''fills.txt''), Print (ReadingFrom (codes ''fills.txt'')),
       ReadFile (codes ''fills.txt'')], Inr [222]) \<and>
   main 4300 plain_repr two_files =
     main 4300 plain_repr
       (two_files\<lparr>argv := [codes ''download_plots.py'', codes ''fills.txt'']\<rparr>) \<and>
   fills_from_arguments 4300
     (two_files\<lparr>argv := [codes ''download_plots.py'', codes ''1,'', codes ''2'']\<rparr>) =
     ([IsFile (codes ''1,'')], Inr [1, 2]) \<and>
   fills_from_arguments 4300
     (two_files\<lparr>argv := [codes ''download_plots.py'', codes ''7'', codes ''more.txt'',
                         codes '',8'', codes ''9'']\<rparr>) =
     ([IsFile (codes ''7'')], Inr [7, 8])"
proof -
  have args: "argv two_files =
      codes ''download_plots.py'' # codes ''fills.txt'' # [codes ''more.txt'']"
    by (simp add: two_files_def)
  have same: "(\<lambda>p. p = codes ''fills.txt'') (codes ''fills.txt'') =
      isfile two_files (codes ''fills.txt'')"
    by (simp add: two_files_def)
  have named: "isfile two_files (codes ''fills.txt'')"
    by (simp add: two_files_def)
  have readable: "read_file two_files (codes ''fills.txt'') = Inr (codes ''222'')"
    by (simp add: two_files_def)
  have parsed: "parse_text 4300 (codes ''222'') = Inr [222]"
    by (simp add: parse_text_def parser_eval)
  let ?numbers = "two_files\<lparr>argv := [codes ''download_plots.py'', codes ''1,'', codes ''2'']\<rparr>"
  have args': "argv ?numbers = codes ''download_plots.py'' # codes ''1,'' # [codes ''2'']"
    by simp
  have nofile: "\<not> isfile ?numbers (codes ''1,'')"
    by (simp add: two_files_def codes_def)
  have joined: "parse_text 4300 (codes ''1,'' @ concat (map (\<lambda>arg. 0x20 # arg) [codes ''2''])) =
      Inr [1, 2]"
    by (simp add: parse_text_def parser_eval)
  let ?mixed = "two_files\<lparr>argv := [codes ''download_plots.py'', codes ''7'', codes ''more.txt'',
                                    codes '',8'', codes ''9'']\<rparr>"
  have args'': "argv ?mixed =
      codes ''download_plots.py'' # codes ''7'' # [codes ''more.txt'', codes '',8'', codes ''9'']"
    by simp
  have nofile': "\<not> isfile ?mixed (codes ''7'')"
    by (simp add: two_files_def codes_def)
  have joined': "parse_text 4300
      (codes ''7'' @ concat (map (\<lambda>arg. 0x20 # arg)
         [codes ''more.txt'', codes '',8'', codes ''9''])) = Inr [7, 8]"
    by (simp add: parse_text_def parser_eval)
  note first = only_first_argument_is_tested
    [OF args, of "\<lambda>p. p = codes ''fills.txt''" 4300 plain_repr]
  note second = only_first_argument_is_tested
    [OF args', of "\<lambda>p. p = codes ''fills.txt''" 4300 plain_repr]
  note third = only_first_argument_is_tested
    [OF args'', of "\<lambda>p. p = codes ''fills.txt''" 4300 plain_repr]
  note unchanged = first [THEN conjunct1, THEN mp, OF same]
  note read = first [THEN conjunct2, THEN conjunct1, THEN mp, OF named]
  note joined_all = second [THEN conjunct2, THEN conjunct2, THEN mp, OF nofile]
  note joined_all' = third [THEN conjunct2, THEN conjunct2, THEN mp, OF nofile']
  from read readable parsed have "fills_from_arguments 4300 two_files =
     ([IsFile (codes ''fills.txt''), Print (ReadingFrom (codes ''fills.txt'')),
       ReadFile (codes ''fills.txt'')], Inr [222])"
    by simp
  moreover from read have "main 4300 plain_repr two_files =
     main 4300 plain_repr
       (two_files\<lparr>argv := [codes ''download_plots.py'', codes ''fills.txt'']\<rparr>)"
    by (rule conjunct2)
  moreover from joined_all joined have "fills_from_arguments 4300 ?numbers =
     ([IsFile (codes ''1,'')], Inr [1, 2])"
    by simp
  moreover from joined_all' joined' have "fills_from_arguments 4300 ?mixed =
     ([IsFile (codes ''7'')], Inr [7, 8])"
    by simp
  ultimately show ?thesis using unchanged by (intro conjI)
qed

end
